theory Spec2Isabelle
  imports Complex_Main
begin

section \<open>Manufacturing asset management: the data model\<close>

text \<open>
  The program keeps three tables through an object-relational mapper and draws five pages
  with a widget toolkit. The embedding keeps the tables as lists in insertion order, the
  input widgets' return values as arguments of the page functions, and the calls that show
  something on the page as a list of \<open>ui\<close> events in the order the calls are made.

  Modelling conventions:
  \<^item> a Python \<open>str\<close> is a \<open>string\<close> holding its UTF-8 bytes;
  \<^item> a \<open>Float\<close> is a \<open>real\<close>, the value of the double it holds. The sum of floats in
    the daily report rounds every partial sum to a double, as the machine does; the one
    quotient of the program (elapsed seconds by 3600) is taken exactly;
  \<^item> a \<open>DateTime\<close> is a \<open>real\<close>, the seconds on the local time line, so that
    \<open>(b - a).total_seconds()\<close> is \<open>b - a\<close>; \<open>datetime.now()\<close> is an argument;
  \<^item> an \<open>Integer\<close> column is an \<open>int\<close> (the 64-bit bound of the database is not modelled).
\<close>

subsection \<open>Strings\<close>

text \<open>
  \<open>str.strip()\<close> removes the leading and trailing white space. Python counts 29 code
  points as white space; \<open>whitespace\<close> lists their UTF-8 encodings.
\<close>

definition whitespace :: "string list" where
  "whitespace =
     [[CHR 0x09], [CHR 0x0A], [CHR 0x0B], [CHR 0x0C], [CHR 0x0D],
      [CHR 0x1C], [CHR 0x1D], [CHR 0x1E], [CHR 0x1F], [CHR 0x20],
      [CHR 0xC2, CHR 0x85], [CHR 0xC2, CHR 0xA0], [CHR 0xE1, CHR 0x9A, CHR 0x80],
      [CHR 0xE2, CHR 0x80, CHR 0x80], [CHR 0xE2, CHR 0x80, CHR 0x81],
      [CHR 0xE2, CHR 0x80, CHR 0x82], [CHR 0xE2, CHR 0x80, CHR 0x83],
      [CHR 0xE2, CHR 0x80, CHR 0x84], [CHR 0xE2, CHR 0x80, CHR 0x85],
      [CHR 0xE2, CHR 0x80, CHR 0x86], [CHR 0xE2, CHR 0x80, CHR 0x87],
      [CHR 0xE2, CHR 0x80, CHR 0x88], [CHR 0xE2, CHR 0x80, CHR 0x89],
      [CHR 0xE2, CHR 0x80, CHR 0x8A], [CHR 0xE2, CHR 0x80, CHR 0xA8],
      [CHR 0xE2, CHR 0x80, CHR 0xA9], [CHR 0xE2, CHR 0x80, CHR 0xAF],
      [CHR 0xE2, CHR 0x81, CHR 0x9F], [CHR 0xE3, CHR 0x80, CHR 0x80]]"

text \<open>\<open>drop_tokens ts s\<close> removes from the front of \<open>s\<close> every leading token of \<open>ts\<close>.\<close>

function drop_tokens :: "string list \<Rightarrow> string \<Rightarrow> string" where
  "drop_tokens ts s =
     (case find (\<lambda>t. t \<noteq> [] \<and> take (length t) s = t) ts of
        None \<Rightarrow> s
      | Some t \<Rightarrow> drop_tokens ts (drop (length t) s))"
  by pat_completeness auto
termination
proof (relation "measure (\<lambda>(ts, s). length s)")
  show "wf (measure (\<lambda>(ts, s). length s))" by simp
next
  fix ts :: "string list" and s t :: string
  assume "find (\<lambda>t. t \<noteq> [] \<and> take (length t) s = t) ts = Some t"
  then have t: "t \<noteq> []" "take (length t) s = t"
    by (auto simp: find_Some_iff)
  then have "s \<noteq> []" by auto
  with t show "((ts, drop (length t) s), (ts, s)) \<in> measure (\<lambda>(ts, s). length s)"
    by (cases t) auto
qed

declare drop_tokens.simps [simp del]

definition lstrip :: "string \<Rightarrow> string" where
  "lstrip s = drop_tokens whitespace s"

definition rstrip :: "string \<Rightarrow> string" where
  "rstrip s = rev (drop_tokens (map rev whitespace) (rev s))"

definition strip :: "string \<Rightarrow> string" where
  "strip s = rstrip (lstrip s)"

text \<open>\<open>str(n)\<close> for an integer: its decimal digits, with a minus sign when negative.\<close>

definition digit :: "nat \<Rightarrow> char" where
  "digit d = ''0123456789'' ! d"

function str_nat :: "nat \<Rightarrow> string" where
  "str_nat n = (if n < 10 then [digit n] else str_nat (n div 10) @ [digit (n mod 10)])"
  by pat_completeness auto
termination
  by (relation "measure (\<lambda>n. n)") auto

declare str_nat.simps [simp del]

definition str_int :: "int \<Rightarrow> string" where
  "str_int i = (if i < 0 then CHR ''-'' # str_nat (nat (- i)) else str_nat (nat i))"

subsection \<open>Floats\<close>

text \<open>
  A double has 53 significant bits. \<open>ulp x\<close> is the distance between neighbouring
  doubles at the magnitude of \<open>x\<close>: \<open>2 ^ (e - 52)\<close> when \<open>2 ^ e \<le> \<bar>x\<bar> < 2 ^ (e + 1)\<close>, never
  below \<open>2 ^ - 1074\<close> (the subnormal numbers) nor above \<open>2 ^ 971\<close> (overflow to infinity is
  not modelled). \<open>round_double x\<close> is the double nearest to \<open>x\<close>, the one with the even
  significand when two are equally near. \<open>fl_add\<close> is the addition of two doubles and
  \<open>float_sum\<close> is Python's \<open>sum\<close> over floats: it starts at 0 and adds from the left,
  rounding every partial sum (the plain summation; the correction term that recent
  interpreters carry along is not modelled).
\<close>

function ulp_down :: "nat \<Rightarrow> real \<Rightarrow> real \<Rightarrow> real" where
  "ulp_down n u x = (if n = 0 \<or> 2 ^ 52 * u \<le> \<bar>x\<bar> then u else ulp_down (n - 1) (u / 2) x)"
  by pat_completeness auto
termination
  by (relation "measure (\<lambda>(n, u, x). n)") auto

function ulp_up :: "nat \<Rightarrow> real \<Rightarrow> real \<Rightarrow> real" where
  "ulp_up n u x = (if n = 0 \<or> \<bar>x\<bar> < 2 ^ 53 * u then u else ulp_up (n - 1) (2 * u) x)"
  by pat_completeness auto
termination
  by (relation "measure (\<lambda>(n, u, x). n)") auto

declare ulp_down.simps [simp del] ulp_up.simps [simp del]

definition ulp :: "real \<Rightarrow> real" where
  "ulp x = (if \<bar>x\<bar> < 1 then ulp_down 1022 (1 / 2 ^ 52) x else ulp_up 1023 (1 / 2 ^ 52) x)"

definition round_half_even :: "real \<Rightarrow> int" where
  "round_half_even y =
     (let f = \<lfloor>y\<rfloor>; r = y - of_int f in
      if r < 1 / 2 then f else if 1 / 2 < r then f + 1 else if even f then f else f + 1)"

definition round_double :: "real \<Rightarrow> real" where
  "round_double x = of_int (round_half_even (x / ulp x)) * ulp x"

definition fl_add :: "real \<Rightarrow> real \<Rightarrow> real" where
  "fl_add x y = round_double (x + y)"

definition float_sum :: "real list \<Rightarrow> real" where
  "float_sum xs = foldl fl_add 0 xs"


subsection \<open>The tables\<close>

record Product =
  id :: int
  name :: string
  price :: real
  quantity :: int

record Machine =
  id :: int
  name :: string
  status :: string
  last_maintenance :: "real option"

record Production =
  id :: int
  machine_id :: int
  start_time :: real
  end_time :: "real option"
  run_time :: real
  production_quantity :: int

text \<open>
  The database behind \<open>session\<close>, and \<open>st.session_state\<close>. The attribute
  \<open>running_machine\<close> is \<open>None\<close> while it has never been set (\<open>hasattr\<close> is false),
  \<open>Some None\<close> when it holds Python's \<open>None\<close>, and \<open>Some (Some i)\<close> when it holds an id.
\<close>

record world =
  products :: "Product list"
  machines :: "Machine list"
  productions :: "Production list"
  running_machine :: "int option option"

text \<open>
  An integer primary key: the database assigns the largest key of the table plus one, and
  1 in an empty table.
\<close>

definition next_id :: "int list \<Rightarrow> int" where
  "next_id ids = (case ids of [] \<Rightarrow> 1 | _ # _ \<Rightarrow> Max (set ids) + 1)"

text \<open>
  \<open>session.query(T).get(i)\<close>: the row of table \<open>T\<close> whose primary key is \<open>i\<close>, if any.
  \<open>get_machine\<close> is the call the program makes, on the machines.
\<close>

definition query_get :: "('r \<Rightarrow> int) \<Rightarrow> 'r list \<Rightarrow> int \<Rightarrow> 'r option" where
  "query_get key rows i = find (\<lambda>r. key r = i) rows"

definition get_machine :: "world \<Rightarrow> int \<Rightarrow> Machine option" where
  "get_machine w mid = query_get Machine.id (machines w) mid"

text \<open>
  \<open>session.add(row); session.commit()\<close> for each table. The key is assigned by the
  database; \<open>last_maintenance\<close> has the column default \<open>datetime.now\<close>, read at the insert.
\<close>

definition add_product :: "string \<Rightarrow> real \<Rightarrow> int \<Rightarrow> world \<Rightarrow> world" where
  "add_product nm pr qty w =
     w\<lparr>products := products w @
         [\<lparr>Product.id = next_id (map Product.id (products w)),
           Product.name = nm, price = pr, quantity = qty\<rparr>]\<rparr>"

definition add_machine :: "real \<Rightarrow> string \<Rightarrow> string \<Rightarrow> world \<Rightarrow> world" where
  "add_machine now nm st w =
     w\<lparr>machines := machines w @
         [\<lparr>Machine.id = next_id (map Machine.id (machines w)),
           Machine.name = nm, status = st, last_maintenance = Some now\<rparr>]\<rparr>"

definition add_production ::
  "int \<Rightarrow> real \<Rightarrow> real option \<Rightarrow> real \<Rightarrow> int \<Rightarrow> world \<Rightarrow> world" where
  "add_production mid start end rt qty w =
     w\<lparr>productions := productions w @
         [\<lparr>Production.id = next_id (map Production.id (productions w)),
           machine_id = mid, start_time = start, end_time = end,
           run_time = rt, production_quantity = qty\<rparr>]\<rparr>"

text \<open>
  Assigning \<open>machine.status\<close> and committing: the row of that key gets the new status.
\<close>

definition set_status :: "int \<Rightarrow> string \<Rightarrow> world \<Rightarrow> world" where
  "set_status mid st w =
     w\<lparr>machines := map (\<lambda>m. if Machine.id m = mid then m\<lparr>status := st\<rparr> else m) (machines w)\<rparr>"

subsection \<open>What a page draws\<close>

datatype cell = IntCell int | FloatCell real | StrCell string

datatype ui =
    st_title string
  | st_write string
  | st_error string
  | st_warning string
  | st_success string
  | st_balloons
  | st_dataframe "(string \<times> cell list) list"

section \<open>The pages\<close>

definition home_page :: "ui list" where
  "home_page =
     [st_title ''Manufacturing Asset Management'',
      st_write ''Welcome to the Manufacturing Asset Management System!'']"

text \<open>
  \<open>add_machine_page\<close>: \<open>machine_name\<close> is the text input, \<open>machine_status\<close> the value of the
  select box, \<open>submitted\<close> the form's submit button; \<open>now\<close> is the clock at the insert.
  The select box offers \<open>status_options\<close> and returns one of them.
\<close>

definition status_options :: "string list" where
  "status_options = [''Running'', ''Idle'', ''Maintenance'']"

definition add_machine_page :: "real \<Rightarrow> string \<Rightarrow> string \<Rightarrow> bool \<Rightarrow> world \<Rightarrow> world \<times> ui list" where
  "add_machine_page now machine_name machine_status submitted w =
     (if submitted then
        (if strip machine_name = [] then
           (w, [st_title ''Add New Machine'', st_error ''Machine name cannot be empty!''])
         else
           (add_machine now machine_name machine_status w,
            [st_title ''Add New Machine'', st_success (''Added machine: '' @ machine_name),
             st_balloons]))
      else (w, [st_title ''Add New Machine'']))"

text \<open>
  \<open>add_product_page\<close>: \<open>product_name\<close> is the text input, \<open>qty\<close> the number input
  (\<open>quantity\<close> in the source), \<open>submitted\<close> the button. \<open>product_price\<close> is the constant
  \<open>0.0\<close> of the source, which the message shows with two decimals after a currency
  sign. In the source file the sign is the three characters U+00E2, U+201A, U+00B9 (the
  bytes of the rupee sign U+20B9 read in a one-byte code page); \<open>currency_sign\<close> holds
  their UTF-8 bytes.
\<close>

definition product_price :: real where
  "product_price = 0"

definition currency_sign :: string where
  "currency_sign = [CHR 0xC3, CHR 0xA2, CHR 0xE2, CHR 0x80, CHR 0x9A, CHR 0xC2, CHR 0xB9]"

definition add_product_page :: "string \<Rightarrow> int \<Rightarrow> bool \<Rightarrow> world \<Rightarrow> world \<times> ui list" where
  "add_product_page product_name qty submitted w =
     (if submitted then
        (if strip product_name = [] then
           (w, [st_title ''Add New Product'', st_error ''Product name cannot be empty!''])
         else if qty \<le> 0 then
           (w, [st_title ''Add New Product'', st_error ''Quantity must be greater than 0!''])
         else
           (add_product product_name product_price qty w,
            [st_title ''Add New Product'',
             st_success (''Added product: '' @ product_name @ '' with price: '' @ currency_sign @ ''0.00''),
             st_balloons]))
      else (w, [st_title ''Add New Product'']))"

text \<open>
  \<open>production_data_page\<close>: one column per key of the dictionary, one cell per row of the
  table. \<open>strftime\<close> stands for the library's rendering of a time as
  \<open>%Y-%m-%d %H:%M:%S\<close>. A \<open>datetime\<close> is always true in a condition, so the end time
  shows as \<open>Running\<close> exactly when it is \<open>None\<close>.
\<close>

definition end_time_cell :: "(real \<Rightarrow> string) \<Rightarrow> Production \<Rightarrow> cell" where
  "end_time_cell strftime prd =
     (case end_time prd of Some t \<Rightarrow> StrCell (strftime t) | None \<Rightarrow> StrCell ''Running'')"

definition production_data :: "(real \<Rightarrow> string) \<Rightarrow> Production list \<Rightarrow> (string \<times> cell list) list" where
  "production_data strftime prods =
     [(''Production ID'', map (\<lambda>prd. IntCell (Production.id prd)) prods),
      (''Machine ID'', map (\<lambda>prd. IntCell (machine_id prd)) prods),
      (''Start Time'', map (\<lambda>prd. StrCell (strftime (start_time prd))) prods),
      (''End Time'', map (end_time_cell strftime) prods),
      (''Run Time (hours)'', map (\<lambda>prd. FloatCell (run_time prd)) prods),
      (''Production Quantity'', map (\<lambda>prd. IntCell (production_quantity prd)) prods)]"

definition production_data_page :: "(real \<Rightarrow> string) \<Rightarrow> world \<Rightarrow> ui list" where
  "production_data_page strftime w =
     (if productions w \<noteq> [] then
        [st_title ''Production Data'', st_dataframe (production_data strftime (productions w))]
      else [st_title ''Production Data'', st_write ''No production data available.''])"

text \<open>
  \<open>daily_report_page\<close>: the loop over the machines appends one entry to \<open>report_data\<close>
  per machine; Python's \<open>sum\<close> adds from the left, starting at 0: exactly over the
  integer quantities (\<open>py_sum\<close>), in double arithmetic over the run times (\<open>float_sum\<close>).
\<close>

definition py_sum :: "int list \<Rightarrow> int" where
  "py_sum xs = foldl (+) 0 xs"

definition report_entry :: "world \<Rightarrow> Machine \<Rightarrow> string \<times> real \<times> int" where
  "report_entry w machine =
     (let prods = filter (\<lambda>prd. machine_id prd = Machine.id machine) (productions w);
          total_run_time = float_sum (map run_time prods);
          total_production_quantity = py_sum (map production_quantity prods)
      in (Machine.name machine, total_run_time, total_production_quantity))"

definition report_data :: "world \<Rightarrow> (string \<times> real \<times> int) list" where
  "report_data w = foldl (\<lambda>acc machine. acc @ [report_entry w machine]) [] (machines w)"

definition daily_report_page :: "world \<Rightarrow> ui list" where
  "daily_report_page w =
     (let rd = report_data w in
      if rd \<noteq> [] then
        [st_title ''Daily Report'',
         st_dataframe
           [(''Machine Name'', map (\<lambda>(n, rt, q). StrCell n) rd),
            (''Total Run Time (hours)'', map (\<lambda>(n, rt, q). FloatCell rt) rd),
            (''Total Production Quantity'', map (\<lambda>(n, rt, q). IntCell q) rd)]]
      else [st_title ''Daily Report'', st_write ''No report data available.''])"

section \<open>Monitoring a machine\<close>

text \<open>
  The sampling loop sleeps one second in every iteration and reads the clock after it.
  What happens around the program in the \<open>k\<close>-th sleep is the \<open>k\<close>-th \<open>tick\<close>:
  \<^item> \<open>clock\<close>, the reading of the wall clock that follows the sleep;
  \<^item> \<open>ext_write\<close>, the status another actor may have committed to the row of some
    machine in the meantime;
  \<^item> \<open>stop_click\<close>, the machine whose Stop button is clicked in the meantime, if any:
    the click is a run of \<open>monitor_machine\<close> for that machine with only Stop clicked, on
    the same database and the same session state, after the write of \<open>ext_write\<close>.

  The session expires a loaded row at every commit, so \<open>machine.status\<close> in the loop
  condition reads the row again; a row that is gone raises \<open>ObjectDeletedError\<close>.
  The loop has no bound: it is a partial function, \<open>None\<close> when it runs forever.
\<close>

record tick =
  clock :: real
  ext_write :: "(int \<times> string) option"
  stop_click :: "int option"

datatype error = ObjectDeletedError

text \<open>
  The Stop branch of \<open>monitor_machine\<close> for the machine found, and \<open>press_stop\<close>, the whole
  run of \<open>monitor_machine\<close> in which only Stop is clicked.
\<close>

definition stop_monitoring :: "Machine \<Rightarrow> int \<Rightarrow> world \<Rightarrow> world \<times> ui list" where
  "stop_monitoring machine mid w =
     (if running_machine w = Some (Some mid) then
        ((set_status (Machine.id machine) ''Idle'' w)\<lparr>running_machine := Some None\<rparr>, [])
      else (w, [st_warning ''This machine is not currently being monitored.'']))"

definition press_stop :: "int \<Rightarrow> world \<Rightarrow> world \<times> ui list" where
  "press_stop mid w =
     (case get_machine w mid of
        None \<Rightarrow> (w, [st_error ''Machine not found.''])
      | Some machine \<Rightarrow> stop_monitoring machine mid w)"

definition sleep :: "tick \<Rightarrow> world \<Rightarrow> world" where
  "sleep t w =
     (let w1 = (case ext_write t of None \<Rightarrow> w | Some (mid, st) \<Rightarrow> set_status mid st w)
      in case stop_click t of None \<Rightarrow> w1 | Some mid \<Rightarrow> fst (press_stop mid w1))"

partial_function (option) sampling_loop ::
  "(nat \<Rightarrow> tick) \<Rightarrow> nat \<Rightarrow> real \<Rightarrow> Machine \<Rightarrow> int \<Rightarrow> world
     \<Rightarrow> (error + world \<times> Machine \<times> int) option" where
  "sampling_loop env k start machine qty w =
     (if status machine = ''Running'' then
        (let qty' = qty + 1;
             w1 = sleep (env k) w;
             rt = (clock (env k) - start) / 3600;
             w2 = add_production (Machine.id machine) start None rt qty' w1
         in case get_machine w2 (Machine.id machine) of
              None \<Rightarrow> Some (Inl ObjectDeletedError)
            | Some machine' \<Rightarrow> sampling_loop env (Suc k) start machine' qty' w2)
      else Some (Inr (w, machine, qty)))"

declare sampling_loop.simps [code]

text \<open>
  \<open>monitor_machine\<close>: \<open>start_clicked\<close> and \<open>stop_clicked\<close> are the two buttons (the Stop
  button is only asked when Start was not clicked), \<open>now\<close> is the clock at the start of
  the session and \<open>env\<close> the ticks of its loop.
\<close>

definition monitor_machine ::
  "real \<Rightarrow> (nat \<Rightarrow> tick) \<Rightarrow> bool \<Rightarrow> bool \<Rightarrow> int \<Rightarrow> world \<Rightarrow> (error + world \<times> ui list) option" where
  "monitor_machine now env start_clicked stop_clicked mid w =
     (case get_machine w mid of
        None \<Rightarrow> Some (Inr (w, [st_error ''Machine not found.'']))
      | Some machine \<Rightarrow>
          if start_clicked then
            (case sampling_loop env 0 now machine 0 (w\<lparr>running_machine := Some (Some mid)\<rparr>) of
               None \<Rightarrow> None
             | Some (Inl e) \<Rightarrow> Some (Inl e)
             | Some (Inr (w', machine', qty)) \<Rightarrow>
                 Some (Inr (w',
                   [st_success (''Monitoring '' @ Machine.name machine' @
                      '' stopped. Total Production: '' @ str_int qty @ '' units.'')])))
          else if stop_clicked then Some (Inr (stop_monitoring machine mid w))
          else Some (Inr (w, [])))"

text \<open>
  In a session of machine \<open>mid\<close>, whose Start has put \<open>mid\<close> into the session state, a
  tick takes the status of \<open>mid\<close> away from \<open>Running\<close> when the Stop button of \<open>mid\<close> is
  clicked in it, or else when it carries a write of another status to \<open>mid\<close>.
\<close>

definition flips :: "tick \<Rightarrow> int \<Rightarrow> bool" where
  "flips t mid =
     (stop_click t = Some mid \<or>
      (case ext_write t of None \<Rightarrow> False | Some (i, st) \<Rightarrow> i = mid \<and> st \<noteq> ''Running''))"

section \<open>The operations of the program\<close>

text \<open>
  \<open>main\<close> draws the page chosen in the menu; a \<open>page\<close> is the choice together with the
  values of the widgets of that page. A \<open>request\<close> is one run of a page or of
  \<open>monitor_machine\<close>, and \<open>handle\<close> runs it.
\<close>

datatype page =
    Home
  | AddMachine real string string bool
  | AddProduct string int bool
  | ProductionData
  | DailyReport

definition main :: "(real \<Rightarrow> string) \<Rightarrow> page \<Rightarrow> world \<Rightarrow> world \<times> ui list" where
  "main strftime selected w =
     (case selected of
        Home \<Rightarrow> (w, home_page)
      | AddMachine now machine_name machine_status submitted \<Rightarrow>
          add_machine_page now machine_name machine_status submitted w
      | AddProduct product_name qty submitted \<Rightarrow> add_product_page product_name qty submitted w
      | ProductionData \<Rightarrow> (w, production_data_page strftime w)
      | DailyReport \<Rightarrow> (w, daily_report_page w))"

datatype request =
    Page page
  | Monitor real "nat \<Rightarrow> tick" bool bool int

definition handle :: "(real \<Rightarrow> string) \<Rightarrow> request \<Rightarrow> world \<Rightarrow> (error + world \<times> ui list) option" where
  "handle strftime r w =
     (case r of
        Page selected \<Rightarrow> Some (Inr (main strftime selected w))
      | Monitor now env start_clicked stop_clicked mid \<Rightarrow>
          monitor_machine now env start_clicked stop_clicked mid w)"

text \<open>A new database and a new session state.\<close>

definition empty_db :: world where
  "empty_db = \<lparr>products = [], machines = [], productions = [], running_machine = None\<rparr>"

text \<open>
  The worlds the program reaches from a new database by requests that satisfy \<open>ok\<close>
  and return.
\<close>

inductive reachable :: "(real \<Rightarrow> string) \<Rightarrow> (request \<Rightarrow> bool) \<Rightarrow> world \<Rightarrow> bool"
  for strftime :: "real \<Rightarrow> string" and ok :: "request \<Rightarrow> bool" where
  start: "reachable strftime ok empty_db"
| step: "reachable strftime ok w \<Longrightarrow> ok r \<Longrightarrow> handle strftime r w = Some (Inr (w', out))
         \<Longrightarrow> reachable strftime ok w'"

text \<open>
  What the program relies on from outside: the select box of the add-machine form returns
  one of its options, and the statuses other actors write during a session are among the
  same options.
\<close>

fun well_formed :: "request \<Rightarrow> bool" where
  "well_formed (Page (AddMachine now machine_name machine_status submitted)) =
     (machine_status \<in> set status_options)"
| "well_formed (Page _) = True"
| "well_formed (Monitor now env start_clicked stop_clicked mid) =
     (\<forall>k. case ext_write (env k) of None \<Rightarrow> True | Some (i, st) \<Rightarrow> st \<in> set status_options)"

section \<open>A small shop, for the examples\<close>

text \<open>
  Two machines, one of them running; \<open>shift\<close> is an environment in which another actor
  commits \<open>Idle\<close> to machine 1 during the third sleep, the clock advancing one second per
  tick from second 11 on.
\<close>

definition lathe :: Machine where
  "lathe = \<lparr>Machine.id = 1, Machine.name = ''Lathe'', status = ''Running'', last_maintenance = Some 0\<rparr>"

definition press :: Machine where
  "press = \<lparr>Machine.id = 2, Machine.name = ''Press'', status = ''Idle'', last_maintenance = Some 5\<rparr>"

definition shop :: world where
  "shop = \<lparr>products = [], machines = [lathe, press], productions = [], running_machine = None\<rparr>"

text \<open>A rendering of times for the examples: the whole seconds, in decimal.\<close>

definition seconds_text :: "real \<Rightarrow> string" where
  "seconds_text t = str_int \<lfloor>t\<rfloor>"

definition shift :: "nat \<Rightarrow> tick" where
  "shift k = \<lparr>clock = 11 + real k, ext_write = (if k = 2 then Some (1, ''Idle'') else None),
               stop_click = None\<rparr>"


text \<open>The shop after a monitoring session of machine 1 that starts at second 10 under \<open>shift\<close>.\<close>

definition shop_after :: world where
  "shop_after =
     \<lparr>products = [], machines = [lathe\<lparr>status := ''Idle''\<rparr>, press],
      productions =
        [\<lparr>Production.id = 1, machine_id = 1, start_time = 10, end_time = None,
          run_time = 1 / 3600, production_quantity = 1\<rparr>,
         \<lparr>Production.id = 2, machine_id = 1, start_time = 10, end_time = None,
          run_time = 2 / 3600, production_quantity = 2\<rparr>,
         \<lparr>Production.id = 3, machine_id = 1, start_time = 10, end_time = None,
          run_time = 3 / 3600, production_quantity = 3\<rparr>],
      running_machine = Some (Some 1)\<rparr>"



definition rewind :: "nat \<Rightarrow> tick" where
  "rewind k = \<lparr>clock = (if k = 0 then 11 else 12 - 3600),
                ext_write = (if k = 1 then Some (1, ''Idle'') else None), stop_click = None\<rparr>"

definition shop_rewound :: world where
  "shop_rewound =
     \<lparr>products = [], machines = [lathe\<lparr>status := ''Idle''\<rparr>, press],
      productions =
        [\<lparr>Production.id = 1, machine_id = 1, start_time = 10, end_time = None,
          run_time = 1 / 3600, production_quantity = 1\<rparr>,
         \<lparr>Production.id = 2, machine_id = 1, start_time = 10, end_time = None,
          run_time = - 3598 / 3600, production_quantity = 2\<rparr>],
      running_machine = Some (Some 1)\<rparr>"

lemmas shop_defs = lathe_def press_def shop_def shift_def

section \<open>The store\<close>

lemma next_id_greater: "i \<in> set ids \<Longrightarrow> i < next_id ids"
proof -
  assume i: "i \<in> set ids"
  then have "i \<le> Max (set ids)" by simp
  moreover from i have "ids \<noteq> []" by auto
  ultimately show ?thesis
    by (cases ids) (simp_all add: next_id_def)
qed

lemma next_id_if: "next_id ids = (if ids = [] then 1 else Max (set ids) + 1)"
  by (cases ids) (simp_all add: next_id_def)

lemma next_id_snoc: "next_id (ids @ [next_id ids]) = next_id ids + 1"
proof (cases "ids = []")
  case True
  then show ?thesis by (simp add: next_id_if)
next
  case False
  then have "Max (insert (Max (set ids) + 1) (set ids)) = Max (set ids) + 1"
    by (simp add: max_def)
  with False show ?thesis by (simp add: next_id_if)
qed

lemma find_snoc:
  "find P (xs @ [y]) = (case find P xs of None \<Rightarrow> (if P y then Some y else None) | Some x \<Rightarrow> Some x)"
  by (induction xs) auto

lemma query_get_snoc_new:
  assumes "key r = next_id (map key rows)"
  shows "query_get key (rows @ [r]) (next_id (map key rows)) = Some r"
proof -
  have "\<forall>x\<in>set rows. key x \<noteq> next_id (map key rows)"
    using next_id_greater [of _ "map key rows"] by fastforce
  then have "find (\<lambda>x. key x = next_id (map key rows)) rows = None"
    by (simp add: find_None_iff)
  with assms show ?thesis
    by (simp add: query_get_def find_snoc)
qed

lemma query_get_key: "query_get key rows i = Some r \<Longrightarrow> key r = i"
  by (auto simp: query_get_def find_Some_iff)

lemma query_get_mem: "query_get key rows i = Some r \<Longrightarrow> r \<in> set rows"
  by (auto simp: query_get_def find_Some_iff)

lemma get_machine_id: "get_machine w mid = Some machine \<Longrightarrow> Machine.id machine = mid"
  by (simp add: get_machine_def query_get_key)

lemma get_machine_set_status:
  "get_machine (set_status i st w) mid =
     (if i = mid then map_option (\<lambda>m. m\<lparr>status := st\<rparr>) (get_machine w mid)
      else get_machine w mid)"
proof -
  have h: "find (\<lambda>m. Machine.id m = mid) (map (\<lambda>m. if Machine.id m = i then m\<lparr>status := st\<rparr> else m) ms) =
        (if i = mid then map_option (\<lambda>m. m\<lparr>status := st\<rparr>) (find (\<lambda>m. Machine.id m = mid) ms)
         else find (\<lambda>m. Machine.id m = mid) ms)" for ms
    by (induction ms) auto
  show ?thesis
    by (simp add: get_machine_def query_get_def set_status_def h)
qed

lemma get_machine_add_production [simp]:
  "get_machine (add_production mid start e rt qty w) i = get_machine w i"
  by (simp add: get_machine_def add_production_def)

lemma get_machine_running_machine [simp]:
  "get_machine (w\<lparr>running_machine := x\<rparr>) i = get_machine w i"
  by (simp add: get_machine_def)

section \<open>The sampling loop\<close>

lemma set_status_other [simp]:
  "products (set_status i st w) = products w" "productions (set_status i st w) = productions w"
  "running_machine (set_status i st w) = running_machine w"
  "map Machine.id (machines (set_status i st w)) = map Machine.id (machines w)"
  by (simp_all add: set_status_def comp_def)

lemma press_stop_other [simp]:
  "products (fst (press_stop i w)) = products w"
  "productions (fst (press_stop i w)) = productions w"
  "map Machine.id (machines (fst (press_stop i w))) = map Machine.id (machines w)"
  by (simp_all add: press_stop_def stop_monitoring_def split: option.splits)

lemma sleep_other [simp]:
  "products (sleep t w) = products w" "productions (sleep t w) = productions w"
  by (simp_all add: sleep_def Let_def split: option.splits)

lemma sleep_ids [simp]: "map Machine.id (machines (sleep t w)) = map Machine.id (machines w)"
  by (simp add: sleep_def Let_def split: option.splits)


lemma press_stop_other_machine:
  assumes "running_machine w = Some (Some mid)" "i \<noteq> mid"
  shows "fst (press_stop i w) = w"
  using assms by (simp add: press_stop_def stop_monitoring_def split: option.splits)

lemma press_stop_this_machine:
  assumes "get_machine w mid = Some m" "running_machine w = Some (Some mid)"
  shows "get_machine (fst (press_stop mid w)) mid = Some (m\<lparr>status := ''Idle''\<rparr>)"
    and "running_machine (fst (press_stop mid w)) = Some None"
  using assms get_machine_id [OF assms(1)]
  by (simp_all add: press_stop_def stop_monitoring_def get_machine_set_status)

lemma sleep_keeps:
  assumes "get_machine w mid = Some machine" "status machine = ''Running''"
    and "running_machine w = Some (Some mid)" and "\<not> flips t mid"
  shows "get_machine (sleep t w) mid = Some machine"
    and "running_machine (sleep t w) = Some (Some mid)"
proof -
  let ?w1 = "case ext_write t of None \<Rightarrow> w | Some (i, st) \<Rightarrow> set_status i st w"
  have g1: "get_machine ?w1 mid = Some machine"
    using assms(1,2,4) by (auto simp: flips_def get_machine_set_status split: option.splits)
  have r1: "running_machine ?w1 = Some (Some mid)"
    using assms(3) by (simp split: option.splits)
  have "sleep t w = ?w1"
  proof (cases "stop_click t")
    case None
    then show ?thesis by (simp add: sleep_def)
  next
    case (Some i)
    with assms(4) have "i \<noteq> mid" by (auto simp: flips_def)
    with r1 have "fst (press_stop i ?w1) = ?w1" by (rule press_stop_other_machine)
    with Some show ?thesis by (simp add: sleep_def)
  qed
  with g1 r1 show "get_machine (sleep t w) mid = Some machine"
    and "running_machine (sleep t w) = Some (Some mid)"
    by simp_all
qed

lemma sleep_flips:
  assumes "get_machine w mid = Some machine" and "running_machine w = Some (Some mid)"
    and "flips t mid"
  shows "\<exists>st. st \<noteq> ''Running'' \<and>
           get_machine (sleep t w) mid = Some (machine\<lparr>status := st\<rparr>) \<and>
           (stop_click t = Some mid \<longrightarrow> st = ''Idle'' \<and> running_machine (sleep t w) = Some None) \<and>
           (stop_click t \<noteq> Some mid \<longrightarrow>
              ext_write t = Some (mid, st) \<and> running_machine (sleep t w) = Some (Some mid))"
proof -
  let ?w1 = "case ext_write t of None \<Rightarrow> w | Some (i, st) \<Rightarrow> set_status i st w"
  have r1: "running_machine ?w1 = Some (Some mid)"
    using assms(2) by (simp split: option.splits)
  show ?thesis
  proof (cases "stop_click t = Some mid")
    case True
    have "\<exists>m1. get_machine ?w1 mid = Some m1 \<and>
            m1\<lparr>status := ''Idle''\<rparr> = machine\<lparr>status := ''Idle''\<rparr>"
      using assms(1) by (cases "ext_write t") (auto simp: get_machine_set_status)
    then obtain m1 where g1: "get_machine ?w1 mid = Some m1"
      and m1: "m1\<lparr>status := ''Idle''\<rparr> = machine\<lparr>status := ''Idle''\<rparr>"
      by blast
    from press_stop_this_machine [OF g1 r1] m1 True
    have "get_machine (sleep t w) mid = Some (machine\<lparr>status := ''Idle''\<rparr>)"
      and "running_machine (sleep t w) = Some None"
      by (simp_all add: sleep_def)
    with True show ?thesis by auto
  next
    case False
    with assms(3) obtain st where st: "ext_write t = Some (mid, st)" "st \<noteq> ''Running''"
      by (auto simp: flips_def split: option.splits)
    then have g1: "get_machine ?w1 mid = Some (machine\<lparr>status := st\<rparr>)"
      using assms(1) by (simp add: get_machine_set_status)
    have "sleep t w = ?w1"
    proof (cases "stop_click t")
      case None
      then show ?thesis by (simp add: sleep_def)
    next
      case (Some i)
      with False have "i \<noteq> mid" by simp
      with r1 have "fst (press_stop i ?w1) = ?w1" by (rule press_stop_other_machine)
      with Some show ?thesis by (simp add: sleep_def)
    qed
    with g1 r1 st False show ?thesis by auto
  qed
qed

lemma loop_exit:
  "status machine \<noteq> ''Running'' \<Longrightarrow> sampling_loop env k start machine qty w = Some (Inr (w, machine, qty))"
  by (subst sampling_loop.simps) simp

lemma loop_step:
  assumes "get_machine w (Machine.id machine) = Some machine" "status machine = ''Running''"
    "running_machine w = Some (Some (Machine.id machine))"
    "\<not> flips (env k) (Machine.id machine)"
  shows "sampling_loop env k start machine qty w =
         sampling_loop env (Suc k) start machine (qty + 1)
           (add_production (Machine.id machine) start None ((clock (env k) - start) / 3600) (qty + 1)
              (sleep (env k) w))"
  using sleep_keeps(1) [where t = "env k", OF assms]
  by (subst sampling_loop.simps) (simp add: assms(2) Let_def)

lemma loop_flip:
  assumes "get_machine w (Machine.id machine) = Some machine" "status machine = ''Running''"
    "running_machine w = Some (Some (Machine.id machine))"
    "flips (env k) (Machine.id machine)"
  shows "\<exists>st. st \<noteq> ''Running'' \<and>
         (stop_click (env k) = Some (Machine.id machine) \<longrightarrow> st = ''Idle'') \<and>
         (stop_click (env k) \<noteq> Some (Machine.id machine) \<longrightarrow>
            ext_write (env k) = Some (Machine.id machine, st)) \<and>
         sampling_loop env k start machine qty w =
         Some (Inr (add_production (Machine.id machine) start None ((clock (env k) - start) / 3600) (qty + 1)
                      (sleep (env k) w),
                    machine\<lparr>status := st\<rparr>, qty + 1))"
proof -
  from sleep_flips [where t = "env k", OF assms(1,3,4)] obtain st where
    st0: "st \<noteq> ''Running'' \<and>
      get_machine (sleep (env k) w) (Machine.id machine) = Some (machine\<lparr>status := st\<rparr>) \<and>
      (stop_click (env k) = Some (Machine.id machine) \<longrightarrow>
         st = ''Idle'' \<and> running_machine (sleep (env k) w) = Some None) \<and>
      (stop_click (env k) \<noteq> Some (Machine.id machine) \<longrightarrow>
         ext_write (env k) = Some (Machine.id machine, st) \<and>
         running_machine (sleep (env k) w) = Some (Some (Machine.id machine)))" ..
  note st = st0 [THEN conjunct1] st0 [THEN conjunct2, THEN conjunct1]
  have st3: "stop_click (env k) = Some (Machine.id machine) \<longrightarrow> st = ''Idle''"
    using st0 [THEN conjunct2, THEN conjunct2, THEN conjunct1] by simp
  have st4: "stop_click (env k) \<noteq> Some (Machine.id machine) \<longrightarrow>
         ext_write (env k) = Some (Machine.id machine, st)"
    using st0 [THEN conjunct2, THEN conjunct2, THEN conjunct2] by simp
  have "sampling_loop env k start machine qty w =
        sampling_loop env (Suc k) start (machine\<lparr>status := st\<rparr>) (qty + 1)
          (add_production (Machine.id machine) start None ((clock (env k) - start) / 3600) (qty + 1)
              (sleep (env k) w))"
    by (subst sampling_loop.simps) (simp add: assms(2) st(2) Let_def)
  also have "\<dots> = Some (Inr (add_production (Machine.id machine) start None ((clock (env k) - start) / 3600) (qty + 1)
                      (sleep (env k) w), machine\<lparr>status := st\<rparr>, qty + 1))"
    using st(1) by (simp add: loop_exit)
  finally have "sampling_loop env k start machine qty w =
      Some (Inr (add_production (Machine.id machine) start None ((clock (env k) - start) / 3600) (qty + 1)
                      (sleep (env k) w), machine\<lparr>status := st\<rparr>, qty + 1))" .
  with st(1) st3 st4 show ?thesis
    by (intro exI [of _ st] conjI)
qed

lemma add_production_simps [simp]:
  "products (add_production mid start e rt qty w) = products w"
  "machines (add_production mid start e rt qty w) = machines w"
  "running_machine (add_production mid start e rt qty w) = running_machine w"
  by (simp_all add: add_production_def)

lemma loop_run:
  assumes "get_machine w (Machine.id machine) = Some machine" "status machine = ''Running''"
    and "running_machine w = Some (Some (Machine.id machine))"
    and "\<forall>j<n. \<not> flips (env (k + j)) (Machine.id machine)"
  shows "\<exists>w'. sampling_loop env k start machine qty w =
                sampling_loop env (k + n) start machine (qty + int n) w' \<and>
           get_machine w' (Machine.id machine) = Some machine \<and>
           products w' = products w \<and> running_machine w' = running_machine w \<and>
           map Machine.id (machines w') = map Machine.id (machines w) \<and>
           productions w' = productions w @
             map (\<lambda>j. \<lparr>Production.id = next_id (map Production.id (productions w)) + int j,
                        machine_id = Machine.id machine, start_time = start, end_time = None,
                        run_time = (clock (env (k + j)) - start) / 3600,
                        production_quantity = qty + 1 + int j\<rparr>) [0..<n]"
  using assms
proof (induction n arbitrary: k qty w)
  case 0
  then show ?case by auto
next
  case (Suc n)
  let ?mid = "Machine.id machine"
  let ?w2 = "add_production ?mid start None ((clock (env k) - start) / 3600) (qty + 1) (sleep (env k) w)"
  from Suc.prems(4) have quiet0: "\<not> flips (env k) ?mid" by force
  have step: "sampling_loop env k start machine qty w = sampling_loop env (Suc k) start machine (qty + 1) ?w2"
    using loop_step [where env = env and k = k, OF Suc.prems(1,2,3) quiet0] .
  have sync2: "get_machine ?w2 ?mid = Some machine"
    using sleep_keeps(1) [where t = "env k", OF Suc.prems(1,2,3) quiet0] by simp
  have rm2: "running_machine ?w2 = Some (Some ?mid)"
    using sleep_keeps(2) [where t = "env k", OF Suc.prems(1,2,3) quiet0] by simp
  have quiet2: "\<forall>j<n. \<not> flips (env (Suc k + j)) ?mid"
    using Suc.prems(4) by auto
  from Suc.IH [OF sync2 Suc.prems(2) rm2 quiet2, of "qty + 1"] obtain w' where
    w': "sampling_loop env (Suc k) start machine (qty + 1) ?w2 =
           sampling_loop env (Suc k + n) start machine (qty + 1 + int n) w'"
      "get_machine w' ?mid = Some machine"
      "products w' = products ?w2" "running_machine w' = running_machine ?w2"
      "map Machine.id (machines w') = map Machine.id (machines ?w2)"
      "productions w' = productions ?w2 @
         map (\<lambda>j. \<lparr>Production.id = next_id (map Production.id (productions ?w2)) + int j,
                    machine_id = ?mid, start_time = start, end_time = None,
                    run_time = (clock (env (Suc k + j)) - start) / 3600,
                    production_quantity = qty + 1 + 1 + int j\<rparr>) [0..<n]"
    by blast
  have p2: "productions ?w2 = productions w @
      [\<lparr>Production.id = next_id (map Production.id (productions w)), machine_id = ?mid,
        start_time = start, end_time = None, run_time = (clock (env k) - start) / 3600,
        production_quantity = qty + 1\<rparr>]"
    by (simp add: add_production_def)
  have n2: "next_id (map Production.id (productions ?w2)) = next_id (map Production.id (productions w)) + 1"
    by (simp add: p2 next_id_snoc)
  have "productions w' = productions w @
             map (\<lambda>j. \<lparr>Production.id = next_id (map Production.id (productions w)) + int j,
                        machine_id = ?mid, start_time = start, end_time = None,
                        run_time = (clock (env (k + j)) - start) / 3600,
                        production_quantity = qty + 1 + int j\<rparr>) [0..<Suc n]"
    unfolding w'(6) n2 p2 map_upt_Suc by (simp add: next_id_snoc add.commute add.left_commute)
  moreover have "sampling_loop env k start machine qty w =
      sampling_loop env (k + Suc n) start machine (qty + int (Suc n)) w'"
    using step w'(1) by (simp add: add.commute add.left_commute)
  moreover have "running_machine w' = running_machine w"
    using w'(4) rm2 Suc.prems(3) by simp
  ultimately show ?case
    using w'(2,3,5) by auto
qed

lemma loop_returns_flip:
  assumes "sampling_loop env k start machine qty w = Some r"
  shows "get_machine w (Machine.id machine) = Some machine \<longrightarrow> status machine = ''Running'' \<longrightarrow>
         running_machine w = Some (Some (Machine.id machine)) \<longrightarrow>
         (\<exists>n. flips (env (k + n)) (Machine.id machine))"
proof (rule sampling_loop.raw_induct
    [where P = "\<lambda>env k start machine qty w r.
       get_machine w (Machine.id machine) = Some machine \<longrightarrow> status machine = ''Running'' \<longrightarrow>
       running_machine w = Some (Some (Machine.id machine)) \<longrightarrow>
       (\<exists>n. flips (env (k + n)) (Machine.id machine))", OF _ assms])
  fix loop :: "(nat \<Rightarrow> tick) \<Rightarrow> nat \<Rightarrow> real \<Rightarrow> Machine \<Rightarrow> int \<Rightarrow> world
     \<Rightarrow> (error + world \<times> Machine \<times> int) option"
  fix env k start machine qty w r
  assume IH: "\<And>env k start machine qty w r. loop env k start machine qty w = Some r \<Longrightarrow>
       get_machine w (Machine.id machine) = Some machine \<longrightarrow> status machine = ''Running'' \<longrightarrow>
       running_machine w = Some (Some (Machine.id machine)) \<longrightarrow>
       (\<exists>n. flips (env (k + n)) (Machine.id machine))"
  assume body: "(if status machine = ''Running'' then
        (let qty' = qty + 1;
             w1 = sleep (env k) w;
             rt = (clock (env k) - start) / 3600;
             w2 = add_production (Machine.id machine) start None rt qty' w1
         in case get_machine w2 (Machine.id machine) of
              None \<Rightarrow> Some (Inl ObjectDeletedError)
            | Some machine' \<Rightarrow> loop env (Suc k) start machine' qty' w2)
      else Some (Inr (w, machine, qty))) = Some r"
  show "get_machine w (Machine.id machine) = Some machine \<longrightarrow> status machine = ''Running'' \<longrightarrow>
         running_machine w = Some (Some (Machine.id machine)) \<longrightarrow>
         (\<exists>n. flips (env (k + n)) (Machine.id machine))"
  proof (intro impI)
    assume sync: "get_machine w (Machine.id machine) = Some machine"
      and run: "status machine = ''Running''"
      and rm: "running_machine w = Some (Some (Machine.id machine))"
    show "\<exists>n. flips (env (k + n)) (Machine.id machine)"
    proof (cases "flips (env k) (Machine.id machine)")
      case True
      then have "flips (env (k + 0)) (Machine.id machine)" by simp
      then show ?thesis by blast
    next
      case False
      let ?w2 = "add_production (Machine.id machine) start None ((clock (env k) - start) / 3600) (qty + 1)
                   (sleep (env k) w)"
      have sync2: "get_machine ?w2 (Machine.id machine) = Some machine"
        using sleep_keeps(1) [where t = "env k", OF sync run rm False] by simp
      have rm2: "running_machine ?w2 = Some (Some (Machine.id machine))"
        using sleep_keeps(2) [where t = "env k", OF sync run rm False] by simp
      from sync2 body run have "loop env (Suc k) start machine (qty + 1) ?w2 = Some r"
        by (simp add: Let_def)
      from IH [OF this] sync2 run rm2 obtain n where "flips (env (Suc k + n)) (Machine.id machine)"
        by blast
      then have "flips (env (k + Suc n)) (Machine.id machine)" by simp
      then show ?thesis by blast
    qed
  qed
qed

lemma loop_forever:
  assumes "get_machine w (Machine.id machine) = Some machine" "status machine = ''Running''"
    and "running_machine w = Some (Some (Machine.id machine))"
    and "\<forall>n. \<not> flips (env (k + n)) (Machine.id machine)"
  shows "sampling_loop env k start machine qty w = None"
proof (cases "sampling_loop env k start machine qty w")
  case None
  then show ?thesis .
next
  case (Some r)
  from loop_returns_flip [OF this] assms show ?thesis by blast
qed

lemma next_id_run:
  "next_id (ids @ map (\<lambda>j. next_id ids + int j) [0..<n]) = next_id ids + int n"
proof (induction n)
  case 0
  then show ?case by simp
next
  case (Suc n)
  let ?ids = "ids @ map (\<lambda>j. next_id ids + int j) [0..<n]"
  have "ids @ map (\<lambda>j. next_id ids + int j) [0..<Suc n] = ?ids @ [next_id ?ids]"
    by (simp add: Suc.IH)
  then have "next_id (ids @ map (\<lambda>j. next_id ids + int j) [0..<Suc n]) = next_id ?ids + 1"
    by (simp only: next_id_snoc)
  then show ?case
    by (simp add: Suc.IH)
qed

lemma monitor_start_result:
  assumes sync: "get_machine w mid = Some machine" and run: "status machine = ''Running''"
    and quiet: "\<forall>j<n. \<not> flips (env j) mid" and flip: "flips (env n) mid"
  shows "\<exists>w' st. st \<noteq> ''Running'' \<and>
           (stop_click (env n) = Some mid \<longrightarrow> st = ''Idle'' \<and> running_machine w' = Some None) \<and>
           (stop_click (env n) \<noteq> Some mid \<longrightarrow>
              ext_write (env n) = Some (mid, st) \<and> running_machine w' = Some (Some mid)) \<and>
           monitor_machine now env True stop_clicked mid w =
             Some (Inr (w', [st_success (''Monitoring '' @ Machine.name machine @
                      '' stopped. Total Production: '' @ str_int (int n + 1) @ '' units.'')])) \<and>
           get_machine w' mid = Some (machine\<lparr>status := st\<rparr>) \<and>
           products w' = products w \<and>
           map Machine.id (machines w') = map Machine.id (machines w) \<and>
           productions w' = productions w @
             map (\<lambda>j. \<lparr>Production.id = next_id (map Production.id (productions w)) + int j,
                        machine_id = mid, start_time = now, end_time = None,
                        run_time = (clock (env j) - now) / 3600,
                        production_quantity = int j + 1\<rparr>) [0..<Suc n]"
proof -
  let ?w0 = "w\<lparr>running_machine := Some (Some mid)\<rparr>"
  let ?nid = "next_id (map Production.id (productions w))"
  let ?row = "\<lambda>j. \<lparr>Production.id = ?nid + int j,
                        machine_id = mid, start_time = now, end_time = None,
                        run_time = (clock (env j) - now) / 3600,
                        production_quantity = int j + 1\<rparr>"
  have mid: "Machine.id machine = mid" using sync by (rule get_machine_id)
  have sync0: "get_machine ?w0 (Machine.id machine) = Some machine"
    using sync mid by simp
  have rm0: "running_machine ?w0 = Some (Some (Machine.id machine))"
    using mid by simp
  have quiet0: "\<forall>j<n. \<not> flips (env (0 + j)) (Machine.id machine)"
    using quiet mid by simp
  from loop_run [OF sync0 run rm0 quiet0, of now 0] obtain w1 where
    w1: "sampling_loop env 0 now machine 0 ?w0 = sampling_loop env n now machine (int n) w1"
      "get_machine w1 (Machine.id machine) = Some machine"
      "products w1 = products w" "running_machine w1 = Some (Some mid)"
      "map Machine.id (machines w1) = map Machine.id (machines w)"
      "productions w1 = productions w @ map ?row [0..<n]"
    by (auto simp: mid add.commute)
  let ?w2 = "add_production (Machine.id machine) now None ((clock (env n) - now) / 3600) (int n + 1)
               (sleep (env n) w1)"
  have flip1: "flips (env n) (Machine.id machine)" using flip mid by simp
  have rm1: "running_machine w1 = Some (Some (Machine.id machine))"
    using w1(4) mid by simp
  have sync1: "get_machine w1 mid = Some machine"
    using w1(2) mid by simp
  from sleep_flips [where t = "env n", OF sync1 w1(4) flip] obtain st where
    st0: "st \<noteq> ''Running'' \<and>
      get_machine (sleep (env n) w1) mid = Some (machine\<lparr>status := st\<rparr>) \<and>
      (stop_click (env n) = Some mid \<longrightarrow> st = ''Idle'' \<and> running_machine (sleep (env n) w1) = Some None) \<and>
      (stop_click (env n) \<noteq> Some mid \<longrightarrow>
         ext_write (env n) = Some (mid, st) \<and> running_machine (sleep (env n) w1) = Some (Some mid))" ..
  note st = st0 [THEN conjunct1] st0 [THEN conjunct2, THEN conjunct1]
    st0 [THEN conjunct2, THEN conjunct2, THEN conjunct1]
    st0 [THEN conjunct2, THEN conjunct2, THEN conjunct2]
  have "sampling_loop env n now machine (int n) w1 =
        sampling_loop env (Suc n) now (machine\<lparr>status := st\<rparr>) (int n + 1) ?w2"
    using st(2) by (subst sampling_loop.simps) (simp add: run mid Let_def)
  also have "\<dots> = Some (Inr (?w2, machine\<lparr>status := st\<rparr>, int n + 1))"
    using st(1) by (simp add: loop_exit)
  finally have loop: "sampling_loop env n now machine (int n) w1 =
      Some (Inr (?w2, machine\<lparr>status := st\<rparr>, int n + 1))" .
  have g2: "get_machine ?w2 mid = Some (machine\<lparr>status := st\<rparr>)"
    using st(2) by simp
  have ids1: "map Production.id (productions w1) =
      map Production.id (productions w) @ map (\<lambda>j. ?nid + int j) [0..<n]"
    by (simp add: w1(6) comp_def)
  have "productions ?w2 = productions w1 @
      [\<lparr>Production.id = next_id (map Production.id (productions w1)), machine_id = mid,
        start_time = now, end_time = None, run_time = (clock (env n) - now) / 3600,
        production_quantity = int n + 1\<rparr>]"
    by (simp add: add_production_def mid)
  also have "next_id (map Production.id (productions w1)) = ?nid + int n"
    unfolding ids1 by (rule next_id_run)
  finally have p2: "productions ?w2 = productions w @ map ?row [0..<Suc n]"
    by (simp add: w1(6))
  have res: "monitor_machine now env True stop_clicked mid w =
      Some (Inr (?w2, [st_success (''Monitoring '' @ Machine.name machine @
                      '' stopped. Total Production: '' @ str_int (int n + 1) @ '' units.'')]))"
    by (simp add: monitor_machine_def sync w1(1) loop)
  have rm2: "stop_click (env n) = Some mid \<longrightarrow> st = ''Idle'' \<and> running_machine ?w2 = Some None"
    "stop_click (env n) \<noteq> Some mid \<longrightarrow>
       ext_write (env n) = Some (mid, st) \<and> running_machine ?w2 = Some (Some mid)"
    using st(3,4) by simp_all
  have rest: "products ?w2 = products w" "map Machine.id (machines ?w2) = map Machine.id (machines w)"
    using w1(3,5) by simp_all
  from st(1) rm2 res g2 rest p2 show ?thesis
    by (intro exI [of _ ?w2] exI [of _ st] conjI)
qed

lemma get_machine_None_iff: "get_machine w mid = None \<longleftrightarrow> mid \<notin> Machine.id ` set (machines w)"
  by (auto simp: get_machine_def query_get_def find_None_iff)

section \<open>Starting and stopping\<close>

text \<open>
  C4. Monitoring a machine id that no row of the machines table has shows the error
  \<open>Machine not found.\<close> and returns at once: whichever buttons are clicked, the world
  that comes back is the world that went in, so no production row is inserted and nothing
  stored changes.
\<close>

theorem monitor_machine_not_found:
  assumes "mid \<notin> Machine.id ` set (machines w)"
  shows "monitor_machine now env start_clicked stop_clicked mid w =
         Some (Inr (w, [st_error ''Machine not found.'']))"
  using assms by (simp add: monitor_machine_def get_machine_None_iff [symmetric])

theorem monitor_machine_not_found_witness:
  "7 \<notin> Machine.id ` set (machines shop) \<and>
   monitor_machine 10 shift True False 7 shop = Some (Inr (shop, [st_error ''Machine not found.'']))"
proof -
  have h: "7 \<notin> Machine.id ` set (machines shop)"
    by (simp add: shop_defs)
  from monitor_machine_not_found [OF h] h show ?thesis by simp
qed

text \<open>
  C5. The Stop button of an existing machine \<open>mid\<close>. When the session state
  \<open>running_machine\<close> holds \<open>mid\<close>, the row of \<open>mid\<close> gets the status \<open>Idle\<close> in the
  table, no other row of any table changes, and the session state becomes \<open>None\<close>.
  In every other case (the attribute is absent, holds \<open>None\<close> or another id) the world is
  returned as it was and the warning is shown.
\<close>

theorem stop_monitoring_sets_idle:
  assumes "get_machine w mid = Some machine"
  shows "(running_machine w = Some (Some mid) \<longrightarrow>
            (\<exists>w'. monitor_machine now env False True mid w = Some (Inr (w', [])) \<and>
                  machines w' =
                    map (\<lambda>m. if Machine.id m = mid then m\<lparr>status := ''Idle''\<rparr> else m) (machines w) \<and>
                  get_machine w' mid = Some (machine\<lparr>status := ''Idle''\<rparr>) \<and>
                  products w' = products w \<and> productions w' = productions w \<and>
                  running_machine w' = Some None)) \<and>
         (running_machine w \<noteq> Some (Some mid) \<longrightarrow>
            monitor_machine now env False True mid w =
              Some (Inr (w, [st_warning ''This machine is not currently being monitored.''])))"
  using assms get_machine_id [OF assms]
  by (simp add: monitor_machine_def stop_monitoring_def get_machine_set_status)
    (simp add: set_status_def)

theorem stop_monitoring_sets_idle_witness:
  "get_machine (shop\<lparr>running_machine := Some (Some 1)\<rparr>) 1 = Some lathe \<and>
   get_machine (shop\<lparr>running_machine := Some (Some 1)\<rparr>) 2 = Some press \<and>
   monitor_machine 10 shift False True 1 (shop\<lparr>running_machine := Some (Some 1)\<rparr>) =
     Some (Inr (\<lparr>products = [], machines = [lathe\<lparr>status := ''Idle''\<rparr>, press],
                 productions = [], running_machine = Some None\<rparr>, [])) \<and>
   monitor_machine 10 shift False True 2 (shop\<lparr>running_machine := Some (Some 1)\<rparr>) =
     Some (Inr (shop\<lparr>running_machine := Some (Some 1)\<rparr>,
                [st_warning ''This machine is not currently being monitored.'']))"
proof -
  let ?w = "shop\<lparr>running_machine := Some (Some 1)\<rparr>"
  have g1: "get_machine ?w 1 = Some lathe" and g2: "get_machine ?w 2 = Some press"
    by (simp_all add: get_machine_def query_get_def shop_defs)
  from stop_monitoring_sets_idle [OF g1, of 10 shift] obtain w' where
    w': "monitor_machine 10 shift False True 1 ?w = Some (Inr (w', []))"
      "machines w' = map (\<lambda>m. if Machine.id m = 1 then m\<lparr>status := ''Idle''\<rparr> else m) (machines ?w)"
      "products w' = products ?w" "productions w' = productions ?w"
      "running_machine w' = Some None"
    by (auto simp: shop_def)
  have "w' = \<lparr>products = [], machines = [lathe\<lparr>status := ''Idle''\<rparr>, press],
                 productions = [], running_machine = Some None\<rparr>"
    using w'(2-5) by (cases w') (simp add: shop_defs)
  with w'(1) g1 g2 stop_monitoring_sets_idle [OF g2, of 10 shift] show ?thesis
    by (simp add: shop_def)
qed

section \<open>Creating products and machines\<close>

lemma drop_tokens_Nil: "drop_tokens ts [] = []"
proof -
  have "find (\<lambda>t. t \<noteq> [] \<and> take (length t) [] = t) ts = None"
    by (auto simp: find_None_iff)
  then show ?thesis by (simp add: drop_tokens.simps)
qed

lemma strip_Nil: "strip [] = []"
  by (simp add: strip_def lstrip_def rstrip_def drop_tokens_Nil)

lemma strip_space: "strip '' '' = []"
  by (simp add: strip_def lstrip_def rstrip_def whitespace_def drop_tokens.simps)

lemma strip_Bolt: "strip ''Bolt'' = ''Bolt''"
  by (simp add: strip_def lstrip_def rstrip_def whitespace_def drop_tokens.simps)

text \<open>
  C6, as stated, fails: the name of one space is not empty and the quantity 1 is positive,
  yet the page rejects the submission and stores nothing.
\<close>

theorem add_product_blank_name_counterexample:
  "'' '' \<noteq> [] \<and> (0::int) < 1 \<and>
   add_product_page '' '' 1 True shop =
     (shop, [st_title ''Add New Product'', st_error ''Product name cannot be empty!''])"
  by (simp add: add_product_page_def strip_space)

text \<open>
  C6, amended. A submitted product is stored exactly when its name has a character that
  is not white space (\<open>strip\<close> leaves something) and its quantity is positive; the stored
  row carries the name and the quantity as given. A submission whose name is blank or
  whose quantity is not positive is rejected: an error is shown and the world is returned
  unchanged. An empty name is blank, so it is rejected too.
\<close>

theorem add_product_stored_iff:
  "(strip product_name \<noteq> [] \<and> 0 < qty \<longrightarrow>
      add_product_page product_name qty True w =
        (w\<lparr>products := products w @
             [\<lparr>Product.id = next_id (map Product.id (products w)), Product.name = product_name,
               price = 0, quantity = qty\<rparr>]\<rparr>,
         [st_title ''Add New Product'',
          st_success (''Added product: '' @ product_name @ '' with price: '' @ currency_sign @ ''0.00''),
          st_balloons])) \<and>
   (strip product_name = [] \<or> qty \<le> 0 \<longrightarrow>
      (\<exists>msg. add_product_page product_name qty True w =
         (w, [st_title ''Add New Product'', st_error msg]))) \<and>
   (product_name = [] \<longrightarrow> strip product_name = [])"
  by (auto simp: add_product_page_def add_product_def product_price_def strip_Nil)

theorem add_product_stored_iff_witness:
  "strip ''Bolt'' \<noteq> [] \<and> (0::int) < 5 \<and>
   add_product_page ''Bolt'' 5 True shop =
     (shop\<lparr>products := [\<lparr>Product.id = 1, Product.name = ''Bolt'', price = 0, quantity = 5\<rparr>]\<rparr>,
      [st_title ''Add New Product'',
       st_success (''Added product: Bolt with price: '' @ currency_sign @ ''0.00''), st_balloons]) \<and>
   strip '' '' = [] \<and>
   add_product_page '' '' 1 True shop =
     (shop, [st_title ''Add New Product'', st_error ''Product name cannot be empty!'']) \<and>
   \<not> (0::int) < 0 \<and>
   add_product_page ''Bolt'' 0 True shop =
     (shop, [st_title ''Add New Product'', st_error ''Quantity must be greater than 0!''])"
  using add_product_stored_iff [of "''Bolt''" 5 shop] add_product_stored_iff [of "'' ''" 1 shop]
    add_product_stored_iff [of "''Bolt''" 0 shop]
  by (simp add: strip_space strip_Bolt add_product_page_def next_id_def shop_def)

text \<open>
  C8. Whenever the add-product page stores a row, whatever the name and the quantity, that
  row is the last of the table and its price is 0.
\<close>

theorem product_price_zero:
  assumes "add_product_page product_name qty submitted w = (w', out)"
    and "products w' \<noteq> products w"
  shows "\<exists>p. products w' = products w @ [p] \<and> price p = 0 \<and>
             Product.name p = product_name \<and> quantity p = qty"
  using assms
  by (auto simp: add_product_page_def add_product_def product_price_def split: if_splits)

theorem product_price_zero_witness:
  "add_product_page ''Bolt'' 5 True shop =
     (shop\<lparr>products := [\<lparr>Product.id = 1, Product.name = ''Bolt'', price = 0, quantity = 5\<rparr>]\<rparr>,
      [st_title ''Add New Product'',
       st_success (''Added product: Bolt with price: '' @ currency_sign @ ''0.00''), st_balloons]) \<and>
   products (shop\<lparr>products := [\<lparr>Product.id = 1, Product.name = ''Bolt'', price = 0, quantity = 5\<rparr>]\<rparr>)
     \<noteq> products shop \<and>
   (\<exists>p. products (shop\<lparr>products := [\<lparr>Product.id = 1, Product.name = ''Bolt'', price = 0, quantity = 5\<rparr>]\<rparr>)
          = products shop @ [p] \<and> price p = 0 \<and> Product.name p = ''Bolt'' \<and> quantity p = 5)"
proof -
  let ?w' = "shop\<lparr>products := [\<lparr>Product.id = 1, Product.name = ''Bolt'', price = 0, quantity = 5\<rparr>]\<rparr>"
  have run: "add_product_page ''Bolt'' 5 True shop =
     (?w', [st_title ''Add New Product'',
       st_success (''Added product: Bolt with price: '' @ currency_sign @ ''0.00''), st_balloons])"
    by (simp add: add_product_page_def add_product_def product_price_def strip_Bolt next_id_def shop_def)
  have new: "products ?w' \<noteq> products shop"
    by (simp add: shop_def)
  from product_price_zero [OF run new] run new show ?thesis by blast
qed

text \<open>
  C9. A row inserted into any of the three tables is appended with the key the database
  assigns; fetching by that key returns the row, and its fields are the inserted values
  (for a machine: the name, the status and the time of the insert; for a product: the
  name, the price and the quantity; for a production: all five columns).
\<close>

theorem insert_get_round_trip:
  "(strip machine_name \<noteq> [] \<longrightarrow>
      (\<exists>r. machines (fst (add_machine_page now machine_name machine_status True w)) = machines w @ [r] \<and>
           get_machine (fst (add_machine_page now machine_name machine_status True w)) (Machine.id r) = Some r \<and>
           Machine.name r = machine_name \<and> status r = machine_status \<and>
           last_maintenance r = Some now)) \<and>
   (strip product_name \<noteq> [] \<and> 0 < qty \<longrightarrow>
      (\<exists>r. products (fst (add_product_page product_name qty True w)) = products w @ [r] \<and>
           query_get Product.id (products (fst (add_product_page product_name qty True w))) (Product.id r) = Some r \<and>
           Product.name r = product_name \<and> price r = product_price \<and> quantity r = qty)) \<and>
   (\<exists>r. productions (add_production mid start e rt q w) = productions w @ [r] \<and>
        query_get Production.id (productions (add_production mid start e rt q w)) (Production.id r) = Some r \<and>
        machine_id r = mid \<and> start_time r = start \<and> end_time r = e \<and> run_time r = rt \<and>
        production_quantity r = q)"
  by (simp add: add_machine_page_def add_machine_def add_product_page_def add_product_def
      add_production_def get_machine_def query_get_snoc_new)

theorem insert_get_round_trip_witness:
  "strip ''Saw'' \<noteq> [] \<and>
   get_machine (fst (add_machine_page 42 ''Saw'' ''Maintenance'' True shop)) 3 =
     Some \<lparr>Machine.id = 3, Machine.name = ''Saw'', status = ''Maintenance'', last_maintenance = Some 42\<rparr> \<and>
   strip ''Bolt'' \<noteq> [] \<and> (0::int) < 5 \<and>
   query_get Product.id (products (fst (add_product_page ''Bolt'' 5 True shop))) 1 =
     Some \<lparr>Product.id = 1, Product.name = ''Bolt'', price = 0, quantity = 5\<rparr>"
  using insert_get_round_trip [of "''Saw''" 42 "''Maintenance''" shop "''Bolt''" 5]
  by (simp add: strip_Bolt add_machine_page_def add_machine_def add_product_page_def add_product_def
      product_price_def get_machine_def query_get_def next_id_def shop_defs strip_def lstrip_def rstrip_def whitespace_def drop_tokens.simps)

section \<open>The daily report\<close>












section \<open>A monitoring session\<close>

lemma shop_session:
  "monitor_machine 10 shift True False 1 shop =
     Some (Inr (shop_after, [st_success ''Monitoring Lathe stopped. Total Production: 3 units.'']))"
  by (simp add: monitor_machine_def get_machine_def query_get_def shop_defs shop_after_def
      sampling_loop.simps sleep_def add_production_def set_status_def next_id_def Let_def
      str_int_def str_nat.simps digit_def)


lemma rewind_session:
  "monitor_machine 10 rewind True False 1 shop =
     Some (Inr (shop_rewound, [st_success ''Monitoring Lathe stopped. Total Production: 2 units.'']))"
  by (simp add: monitor_machine_def get_machine_def query_get_def shop_defs shop_rewound_def
      rewind_def sampling_loop.simps sleep_def add_production_def set_status_def next_id_def Let_def
      str_int_def str_nat.simps digit_def)

lemma shop_lathe: "get_machine shop 1 = Some lathe" "status lathe = ''Running''"
  by (simp_all add: get_machine_def query_get_def shop_defs)

lemma monitor_start_returns:
  assumes "get_machine w mid = Some machine"
    and "monitor_machine now env True stop_clicked mid w \<noteq> None"
  shows "\<exists>r. sampling_loop env 0 now machine 0 (w\<lparr>running_machine := Some (Some mid)\<rparr>) = Some r"
  using assms by (cases "sampling_loop env 0 now machine 0 (w\<lparr>running_machine := Some (Some mid)\<rparr>)")
    (simp_all add: monitor_machine_def)

lemma monitor_start_flip:
  assumes sync: "get_machine w mid = Some machine" and run: "status machine = ''Running''"
    and ret: "monitor_machine now env True stop_clicked mid w \<noteq> None"
  shows "\<exists>n. flips (env n) mid"
proof -
  have mid: "Machine.id machine = mid" using sync by (rule get_machine_id)
  from monitor_start_returns [OF sync ret] obtain r where
    r: "sampling_loop env 0 now machine 0 (w\<lparr>running_machine := Some (Some mid)\<rparr>) = Some r" ..
  have "get_machine (w\<lparr>running_machine := Some (Some mid)\<rparr>) (Machine.id machine) = Some machine"
    and "running_machine (w\<lparr>running_machine := Some (Some mid)\<rparr>) = Some (Some (Machine.id machine))"
    using sync mid by simp_all
  with loop_returns_flip [OF r] run mid show ?thesis by auto
qed

lemma quantities_upt: "map (\<lambda>j. int j + 1) [0..<N] = map int [1..<Suc N]"
proof -
  have "map int [1..<Suc N] = map int (map Suc [0..<N])"
    by (simp only: map_Suc_upt One_nat_def)
  then show ?thesis by (simp add: comp_def add.commute)
qed

text \<open>
  C1, as stated, fails in its run times. Under \<open>rewind\<close> the session of the running
  machine 1 returns after two ticks with the quantities 1 and 2, but the wall clock was
  set back during the second sleep: the run times are 1/3600 and -3598/3600, which do not
  increase.
\<close>

theorem monitoring_run_time_counterexample:
  "get_machine shop 1 = Some lathe \<and> status lathe = ''Running'' \<and>
   monitor_machine 10 rewind True False 1 shop =
     Some (Inr (shop_rewound, [st_success ''Monitoring Lathe stopped. Total Production: 2 units.''])) \<and>
   productions shop = [] \<and>
   map production_quantity (productions shop_rewound) = [1, 2] \<and>
   map run_time (productions shop_rewound) = [1 / 3600, - 3598 / 3600] \<and>
   \<not> sorted_wrt (<) (map run_time (productions shop_rewound)) \<and>
   \<not> sorted_wrt (\<le>) (map run_time (productions shop_rewound))"
  using shop_lathe rewind_session by (simp add: shop_rewound_def shop_def)

text \<open>
  C1, amended. A session started on a machine whose status is \<open>Running\<close>, and which
  returns, has run some \<open>N > 0\<close> iterations of the loop: the production table has grown
  by exactly \<open>N\<close> rows, appended in order, whose quantities are 1, 2, ..., \<open>N\<close> (the counter
  is incremented before the row is built, so the first row holds 1) and which all carry
  the machine's id, the start time and no end time. The run time of the row of a tick is
  the reading of the wall clock after that tick's sleep minus the start, in hours; so the
  run times increase within the session exactly when those clock readings do, which the
  program does not ensure. \<open>N\<close> is the number of ticks up to and including the first one
  that takes the status away from \<open>Running\<close>, and it is the total reported.
\<close>

theorem monitoring_session_rows:
  assumes "get_machine w mid = Some machine" and "status machine = ''Running''"
    and "monitor_machine now env True stop_clicked mid w = Some (Inr (w', out))"
  shows "\<exists>N rows. 0 < N \<and> productions w' = productions w @ rows \<and> length rows = N \<and>
           map production_quantity rows = map int [1..<Suc N] \<and>
           map run_time rows = map (\<lambda>j. (clock (env j) - now) / 3600) [0..<N] \<and>
           (sorted_wrt (<) (map run_time rows) \<longleftrightarrow>
              (\<forall>i j. i < j \<and> j < N \<longrightarrow> clock (env i) < clock (env j))) \<and>
           map machine_id rows = replicate N mid \<and>
           map start_time rows = replicate N now \<and>
           map end_time rows = replicate N None \<and>
           (\<forall>j<N - 1. \<not> flips (env j) mid) \<and> flips (env (N - 1)) mid \<and>
           out = [st_success (''Monitoring '' @ Machine.name machine @
                    '' stopped. Total Production: '' @ str_int (int N) @ '' units.'')]"
proof -
  have "monitor_machine now env True stop_clicked mid w \<noteq> None"
    using assms(3) by simp
  from monitor_start_flip [OF assms(1,2) this] obtain n1 where n1: "flips (env n1) mid" ..
  define n where "n = (LEAST n. flips (env n) mid)"
  have flip: "flips (env n) mid"
    unfolding n_def using n1 by (rule LeastI)
  have quiet: "\<forall>j<n. \<not> flips (env j) mid"
    unfolding n_def using not_less_Least by blast
  let ?row = "\<lambda>j. \<lparr>Production.id = next_id (map Production.id (productions w)) + int j,
                        machine_id = mid, start_time = now, end_time = None,
                        run_time = (clock (env j) - now) / 3600,
                        production_quantity = int j + 1\<rparr>"
  let ?rows = "map ?row [0..<Suc n]"
  from monitor_start_result [OF assms(1,2) quiet flip, of now stop_clicked] assms(3)
  have w': "productions w' = productions w @ ?rows"
    and out: "out = [st_success (''Monitoring '' @ Machine.name machine @
                    '' stopped. Total Production: '' @ str_int (int n + 1) @ '' units.'')]"
    by auto
  have q: "map production_quantity ?rows = map int [1..<Suc (Suc n)]"
    using quantities_upt [of "Suc n"] by (simp add: comp_def)
  have rt: "map run_time ?rows = map (\<lambda>j. (clock (env j) - now) / 3600) [0..<Suc n]"
    by (simp add: comp_def)
  have nth: "map (\<lambda>j. (clock (env j) - now) / 3600) [0..<Suc n] ! j = (clock (env j) - now) / 3600"
    if "j < Suc n" for j
    using that by (simp add: nth_append del: upt_Suc)
  have mono: "sorted_wrt (<) (map run_time ?rows) \<longleftrightarrow>
      (\<forall>i j. i < j \<and> j < Suc n \<longrightarrow> clock (env i) < clock (env j))"
    unfolding rt sorted_wrt_iff_nth_less
  proof (intro iffI allI impI)
    fix i j
    assume all: "\<forall>i j. i < j \<longrightarrow> j < length (map (\<lambda>j. (clock (env j) - now) / 3600) [0..<Suc n]) \<longrightarrow>
        map (\<lambda>j. (clock (env j) - now) / 3600) [0..<Suc n] ! i <
        map (\<lambda>j. (clock (env j) - now) / 3600) [0..<Suc n] ! j"
      and ij: "i < j \<and> j < Suc n"
    then have "map (\<lambda>j. (clock (env j) - now) / 3600) [0..<Suc n] ! i <
        map (\<lambda>j. (clock (env j) - now) / 3600) [0..<Suc n] ! j"
      by (simp del: upt_Suc)
    moreover from ij have i': "i < Suc n" and j': "j < Suc n" by simp_all
    ultimately have "(clock (env i) - now) / 3600 < (clock (env j) - now) / 3600"
      by (simp only: nth [OF i'] nth [OF j'])
    then show "clock (env i) < clock (env j)" by simp
  next
    fix i j
    assume all: "\<forall>i j. i < j \<and> j < Suc n \<longrightarrow> clock (env i) < clock (env j)"
      and ij: "i < j" and "j < length (map (\<lambda>j. (clock (env j) - now) / 3600) [0..<Suc n])"
    then have j: "j < Suc n" by (simp del: upt_Suc)
    with ij have i: "i < Suc n" by simp
    from ij j all have "clock (env i) < clock (env j)" by blast
    then have "(clock (env i) - now) / 3600 < (clock (env j) - now) / 3600" by simp
    then show "map (\<lambda>j. (clock (env j) - now) / 3600) [0..<Suc n] ! i <
        map (\<lambda>j. (clock (env j) - now) / 3600) [0..<Suc n] ! j"
      by (simp only: nth [OF i] nth [OF j])
  qed
  have cols: "map machine_id ?rows = replicate (Suc n) mid"
    "map start_time ?rows = replicate (Suc n) now"
    "map end_time ?rows = replicate (Suc n) None"
    by (simp_all add: comp_def map_replicate_const del: upt_Suc)
  have out': "out = [st_success (''Monitoring '' @ Machine.name machine @
                    '' stopped. Total Production: '' @ str_int (int (Suc n)) @ '' units.'')]"
    using out by (simp add: add.commute)
  show ?thesis
  proof (intro exI [of _ "Suc n"] exI [of _ ?rows] conjI)
    show "0 < Suc n" by simp
    show "productions w' = productions w @ ?rows" by (rule w')
    show "length ?rows = Suc n" by simp
    show "map production_quantity ?rows = map int [1..<Suc (Suc n)]" by (rule q)
    show "map run_time ?rows = map (\<lambda>j. (clock (env j) - now) / 3600) [0..<Suc n]" by (rule rt)
    show "sorted_wrt (<) (map run_time ?rows) \<longleftrightarrow>
      (\<forall>i j. i < j \<and> j < Suc n \<longrightarrow> clock (env i) < clock (env j))"
      by (rule mono)
    show "map machine_id ?rows = replicate (Suc n) mid" by (rule cols)
    show "map start_time ?rows = replicate (Suc n) now" by (rule cols)
    show "map end_time ?rows = replicate (Suc n) None" by (rule cols)
    show "\<forall>j<Suc n - 1. \<not> flips (env j) mid" using quiet by simp
    show "flips (env (Suc n - 1)) mid" using flip by simp
    show "out = [st_success (''Monitoring '' @ Machine.name machine @
                    '' stopped. Total Production: '' @ str_int (int (Suc n)) @ '' units.'')]"
      by (rule out')
  qed
qed

theorem monitoring_session_rows_witness:
  "get_machine shop 1 = Some lathe \<and> status lathe = ''Running'' \<and>
   monitor_machine 10 shift True False 1 shop =
     Some (Inr (shop_after, [st_success ''Monitoring Lathe stopped. Total Production: 3 units.''])) \<and>
   clock (shift 0) < clock (shift 1) \<and> clock (shift 1) < clock (shift 2) \<and>
   productions shop = [] \<and> length (productions shop_after) = 3 \<and>
   map production_quantity (productions shop_after) = [1, 2, 3] \<and>
   map run_time (productions shop_after) = [1 / 3600, 2 / 3600, 3 / 3600] \<and>
   sorted_wrt (<) (map run_time (productions shop_after)) \<and>
   \<not> flips (shift 0) 1 \<and> \<not> flips (shift 1) 1 \<and> flips (shift 2) 1"
proof -
  from monitoring_session_rows [OF shop_lathe shop_session] obtain N rows where
    rows: "productions shop_after = productions shop @ rows" "length rows = N"
      "map production_quantity rows = map int [1..<Suc N]"
      "map run_time rows = map (\<lambda>j. (clock (shift j) - 10) / 3600) [0..<N]"
      "sorted_wrt (<) (map run_time rows) \<longleftrightarrow>
         (\<forall>i j. i < j \<and> j < N \<longrightarrow> clock (shift i) < clock (shift j))"
      "\<forall>j<N - 1. \<not> flips (shift j) 1" "flips (shift (N - 1)) 1"
    by blast
  have empty: "productions shop = []" by (simp add: shop_def)
  have len: "length (productions shop_after) = 3" by (simp add: shop_after_def)
  from rows(1) empty have same: "rows = productions shop_after" by simp
  with rows(2) len have N: "N = 3" by simp
  have up: "[1..<Suc 3] = [1, 2, 3]" "[0..<3] = [0, 1, 2]"
    by (simp_all add: upt_rec)
  have "\<forall>i j. i < j \<and> j < N \<longrightarrow> clock (shift i) < clock (shift j)"
    by (simp add: shift_def)
  with rows(5) have inc: "sorted_wrt (<) (map run_time (productions shop_after))"
    unfolding same by blast
  have q: "map production_quantity (productions shop_after) = [1, 2, 3]"
    using rows(3) unfolding same N up by simp
  have rt: "map run_time (productions shop_after) = [1 / 3600, 2 / 3600, 3 / 3600]"
    using rows(4) unfolding same N up by (simp add: shift_def)
  have ticks: "clock (shift 0) < clock (shift 1)" "clock (shift 1) < clock (shift 2)"
    by (simp_all add: shift_def)
  have f: "\<not> flips (shift 0) 1" "\<not> flips (shift 1) 1" "flips (shift 2) 1"
    using rows(6,7) unfolding N by simp_all
  from shop_lathe shop_session ticks empty len q rt inc f show ?thesis
    by (intro conjI)
qed



section \<open>What every operation preserves\<close>

text \<open>
  No actor removes a machine, so the loop always finds its row again: a request either
  returns a world or runs forever, it never raises.
\<close>

lemma sleep_still_there:
  assumes "get_machine w mid = Some m"
  shows "\<exists>m'. get_machine (sleep t w) mid = Some m'"
proof -
  let ?w1 = "case ext_write t of None \<Rightarrow> w | Some (i, st) \<Rightarrow> set_status i st w"
  have "\<exists>m1. get_machine ?w1 mid = Some m1"
    using assms by (cases "ext_write t") (auto simp: get_machine_set_status)
  then obtain m1 where g1: "get_machine ?w1 mid = Some m1" ..
  have "\<exists>m'. get_machine (fst (press_stop i ?w1)) mid = Some m'" for i
    using g1
    by (auto simp: press_stop_def stop_monitoring_def get_machine_set_status split: option.splits)
  with g1 show ?thesis
    by (auto simp: sleep_def Let_def split: option.splits)
qed

lemma loop_never_raises:
  assumes ret: "sampling_loop env k start machine qty w = Some r"
  shows "(\<exists>m. get_machine w (Machine.id machine) = Some m) \<longrightarrow> (\<forall>e. r \<noteq> Inl e)"
proof (rule sampling_loop.raw_induct
    [where P = "\<lambda>env k start machine qty w r.
       (\<exists>m. get_machine w (Machine.id machine) = Some m) \<longrightarrow> (\<forall>e. r \<noteq> Inl e)", OF _ ret])
  fix loop :: "(nat \<Rightarrow> tick) \<Rightarrow> nat \<Rightarrow> real \<Rightarrow> Machine \<Rightarrow> int \<Rightarrow> world
     \<Rightarrow> (error + world \<times> Machine \<times> int) option"
  fix env k start machine qty w r
  assume IH: "\<And>env k start machine qty w r. loop env k start machine qty w = Some r \<Longrightarrow>
       (\<exists>m. get_machine w (Machine.id machine) = Some m) \<longrightarrow> (\<forall>e. r \<noteq> Inl e)"
  assume body: "(if status machine = ''Running'' then
        (let qty' = qty + 1;
             w1 = sleep (env k) w;
             rt = (clock (env k) - start) / 3600;
             w2 = add_production (Machine.id machine) start None rt qty' w1
         in case get_machine w2 (Machine.id machine) of
              None \<Rightarrow> Some (Inl ObjectDeletedError)
            | Some machine' \<Rightarrow> loop env (Suc k) start machine' qty' w2)
      else Some (Inr (w, machine, qty))) = Some r"
  show "(\<exists>m. get_machine w (Machine.id machine) = Some m) \<longrightarrow> (\<forall>e. r \<noteq> Inl e)"
  proof (intro impI allI)
    fix e
    assume "\<exists>m. get_machine w (Machine.id machine) = Some m"
    then obtain m where m: "get_machine w (Machine.id machine) = Some m" ..
    show "r \<noteq> Inl e"
    proof (cases "status machine = ''Running''")
      case False
      with body show ?thesis by auto
    next
      case True
      let ?w2 = "add_production (Machine.id machine) start None ((clock (env k) - start) / 3600)
                   (qty + 1) (sleep (env k) w)"
      from sleep_still_there [OF m, of "env k"] obtain machine' where
        m': "get_machine ?w2 (Machine.id machine) = Some machine'"
        by auto
      then have same: "Machine.id machine' = Machine.id machine" by (rule get_machine_id)
      from body True m' have "loop env (Suc k) start machine' (qty + 1) ?w2 = Some r"
        by (simp add: Let_def)
      from IH [OF this] m' same show ?thesis by simp
    qed
  qed
qed

lemma handle_never_raises: "handle strftime r w \<noteq> Some (Inl e)"
proof (cases r)
  case (Page selected)
  then show ?thesis by (simp add: handle_def)
next
  case (Monitor now env start_clicked stop_clicked mid)
  show ?thesis
  proof (cases "get_machine w mid")
    case None
    with Monitor show ?thesis by (simp add: handle_def monitor_machine_def)
  next
    case (Some machine)
    then have mid: "Machine.id machine = mid" by (rule get_machine_id)
    have "sampling_loop env 0 now machine 0 (w\<lparr>running_machine := Some (Some mid)\<rparr>) \<noteq> Some (Inl e)"
    proof
      assume "sampling_loop env 0 now machine 0 (w\<lparr>running_machine := Some (Some mid)\<rparr>) = Some (Inl e)"
      from loop_never_raises [OF this] Some mid show False by simp
    qed
    with Monitor Some show ?thesis
      by (auto simp: handle_def monitor_machine_def split: option.splits sum.splits)
  qed
qed

text \<open>A property of the world that the sleeps and the inserts keep holds when the loop exits.\<close>

lemma loop_invariant:
  assumes ret: "sampling_loop env k start machine qty w = Some (Inr (w', m', q'))"
    and sl: "\<And>k w. Q w \<Longrightarrow> Q (sleep (env k) w)"
    and ap: "\<And>mid rt qty w. Q w \<Longrightarrow> Q (add_production mid start None rt qty w)"
    and init: "Q w"
  shows "Q w'"
proof -
  have "env = env \<longrightarrow> start = start \<longrightarrow> Q w \<longrightarrow>
        (\<forall>a b c. (Inr (w', m', q') :: error + world \<times> Machine \<times> int) = Inr (a, b, c) \<longrightarrow> Q a)"
  proof (rule sampling_loop.raw_induct
      [where P = "\<lambda>env' k start' machine qty w r.
        env' = env \<longrightarrow> start' = start \<longrightarrow> Q w \<longrightarrow> (\<forall>a b c. r = Inr (a, b, c) \<longrightarrow> Q a)",
        OF _ ret])
    fix loop :: "(nat \<Rightarrow> tick) \<Rightarrow> nat \<Rightarrow> real \<Rightarrow> Machine \<Rightarrow> int \<Rightarrow> world
       \<Rightarrow> (error + world \<times> Machine \<times> int) option"
    fix env' k start' machine qty w r
    assume IH: "\<And>env' k start' machine qty w r. loop env' k start' machine qty w = Some r \<Longrightarrow>
        env' = env \<longrightarrow> start' = start \<longrightarrow> Q w \<longrightarrow> (\<forall>a b c. r = Inr (a, b, c) \<longrightarrow> Q a)"
    assume body: "(if status machine = ''Running'' then
        (let qty' = qty + 1;
             w1 = sleep (env' k) w;
             rt = (clock (env' k) - start') / 3600;
             w2 = add_production (Machine.id machine) start' None rt qty' w1
         in case get_machine w2 (Machine.id machine) of
              None \<Rightarrow> Some (Inl ObjectDeletedError)
            | Some machine' \<Rightarrow> loop env' (Suc k) start' machine' qty' w2)
      else Some (Inr (w, machine, qty))) = Some r"
    show "env' = env \<longrightarrow> start' = start \<longrightarrow> Q w \<longrightarrow> (\<forall>a b c. r = Inr (a, b, c) \<longrightarrow> Q a)"
    proof (intro impI allI)
      fix w' m' q'
      assume e: "env' = env" and s: "start' = start" and q: "Q w" and r: "r = Inr (w', m', q')"
      show "Q w'"
      proof (cases "status machine = ''Running''")
        case False
        with body r have "w' = w" by simp
        with q show ?thesis by simp
      next
        case True
        let ?w2 = "add_production (Machine.id machine) start None ((clock (env k) - start) / 3600)
                     (qty + 1) (sleep (env k) w)"
        have q2: "Q ?w2" using q by (intro ap sl)
        from body True e s r obtain machine' where
          "loop env (Suc k) start machine' (qty + 1) ?w2 = Some (Inr (w', m', q'))"
          by (auto simp: Let_def split: option.splits)
        from IH [OF this] q2 show ?thesis by simp
      qed
    qed
  qed
  with init show ?thesis by simp
qed

lemma monitor_invariant:
  assumes ret: "monitor_machine now env start_clicked stop_clicked mid w = Some (Inr (w', out))"
    and sl: "\<And>k w. Q w \<Longrightarrow> Q (sleep (env k) w)"
    and ap: "\<And>mid rt qty w. Q w \<Longrightarrow> Q (add_production mid now None rt qty w)"
    and rm: "\<And>x w. Q w \<Longrightarrow> Q (w\<lparr>running_machine := x\<rparr>)"
    and st: "\<And>w. Q w \<Longrightarrow> Q (set_status mid ''Idle'' w)"
    and init: "Q w"
  shows "Q w'"
proof (cases "get_machine w mid")
  case None
  with ret init show ?thesis by (simp add: monitor_machine_def)
next
  case (Some machine)
  then have mid: "Machine.id machine = mid" by (rule get_machine_id)
  show ?thesis
  proof (cases start_clicked)
    case True
    with ret Some obtain m' q' where
      loop: "sampling_loop env 0 now machine 0 (w\<lparr>running_machine := Some (Some mid)\<rparr>) = Some (Inr (w', m', q'))"
      by (auto simp: monitor_machine_def split: option.splits sum.splits)
    show ?thesis
      by (rule loop_invariant [where Q = Q, OF loop sl ap rm [OF init]])
  next
    case False
    with ret Some mid have "w' = w \<or> w' = (set_status mid ''Idle'' w)\<lparr>running_machine := Some None\<rparr>"
      by (auto simp: monitor_machine_def stop_monitoring_def split: if_splits)
    with init rm [OF st [OF init]] show ?thesis by auto
  qed
qed

lemma handle_productions:
  assumes "handle strftime r w = Some (Inr (w', out))"
  shows "\<exists>rows. productions w' = productions w @ rows \<and> (\<forall>p\<in>set rows. end_time p = None)"
proof (cases r)
  case (Page selected)
  with assms have "productions w' = productions w"
    by (cases selected)
      (auto simp: handle_def main_def add_machine_page_def add_machine_def add_product_page_def
        add_product_def split: if_splits)
  then show ?thesis by simp
next
  case (Monitor now env start_clicked stop_clicked mid)
  with assms have ret: "monitor_machine now env start_clicked stop_clicked mid w = Some (Inr (w', out))"
    by (simp add: handle_def)
  let ?Q = "\<lambda>v::world. \<exists>rows. productions v = productions w @ rows \<and> (\<forall>p\<in>set rows. end_time p = None)"
  show ?thesis
  proof (rule monitor_invariant [where Q = ?Q, OF ret])
    show "?Q w" by simp
  next
    fix mid' rt qty v
    assume "?Q v"
    then show "?Q (add_production mid' now None rt qty v)"
      by (auto simp: add_production_def)
  qed (simp_all add: set_status_def)
qed

lemma handle_machines:
  assumes wf: "well_formed r" and ret: "handle strftime r w = Some (Inr (w', out))"
    and ok: "\<forall>m\<in>set (machines w). status m \<in> set status_options \<and> Machine.name m \<noteq> []"
  shows "\<forall>m\<in>set (machines w'). status m \<in> set status_options \<and> Machine.name m \<noteq> []"
proof (cases r)
  case (Page selected)
  show ?thesis
  proof (cases selected)
    case (AddMachine now machine_name machine_status submitted)
    with Page wf have "machine_status \<in> set status_options" by simp
    moreover have "strip machine_name \<noteq> [] \<Longrightarrow> machine_name \<noteq> []"
      using strip_Nil by auto
    ultimately show ?thesis
      using ret ok Page AddMachine
      by (auto simp: handle_def main_def add_machine_page_def add_machine_def split: if_splits)
  next
    case (AddProduct product_name qty submitted)
    with ret ok Page show ?thesis
      by (auto simp: handle_def main_def add_product_page_def add_product_def split: if_splits)
  qed (use ret ok Page in \<open>auto simp: handle_def main_def\<close>)
next
  case (Monitor now env start_clicked stop_clicked mid)
  with ret have ret': "monitor_machine now env start_clicked stop_clicked mid w = Some (Inr (w', out))"
    by (simp add: handle_def)
  from Monitor wf have writes: "\<And>k i st. ext_write (env k) = Some (i, st) \<Longrightarrow> st \<in> set status_options"
    by (auto split: option.splits dest: spec)
  let ?Q = "\<lambda>v::world. \<forall>m\<in>set (machines v). status m \<in> set status_options \<and> Machine.name m \<noteq> []"
  show ?thesis
  proof (rule monitor_invariant [where Q = ?Q, OF ret'])
    show "?Q w" by (rule ok)
  next
    fix k v
    assume "?Q v"
    then show "?Q (sleep (env k) v)"
      using writes [of k]
      by (auto simp: sleep_def press_stop_def stop_monitoring_def set_status_def Let_def
          status_options_def split: option.splits)
  next
    fix v
    assume "?Q v"
    then show "?Q (set_status mid ''Idle'' v)"
      by (auto simp: set_status_def status_options_def)
  qed simp_all
qed

lemma strip_Lathe: "strip ''Lathe'' = ''Lathe''" and strip_Press: "strip ''Press'' = ''Press''"
  by (simp_all add: strip_def lstrip_def rstrip_def whitespace_def drop_tokens.simps)

lemma shop_after_reachable:
  assumes "ok (Page (AddMachine 0 ''Lathe'' ''Running'' True))"
    and "ok (Page (AddMachine 5 ''Press'' ''Idle'' True))"
    and "ok (Monitor 10 shift True False 1)"
  shows "reachable strftime ok shop_after"
proof -
  let ?w1 = "empty_db\<lparr>machines := [lathe]\<rparr>"
  have 1: "handle strftime (Page (AddMachine 0 ''Lathe'' ''Running'' True)) empty_db =
      Some (Inr (?w1, [st_title ''Add New Machine'', st_success ''Added machine: Lathe'', st_balloons]))"
    by (simp add: handle_def main_def add_machine_page_def add_machine_def strip_Lathe empty_db_def
        next_id_def lathe_def)
  have 2: "handle strftime (Page (AddMachine 5 ''Press'' ''Idle'' True)) ?w1 =
      Some (Inr (shop, [st_title ''Add New Machine'', st_success ''Added machine: Press'', st_balloons]))"
    by (simp add: handle_def main_def add_machine_page_def add_machine_def strip_Press empty_db_def
        next_id_def shop_defs)
  have 3: "handle strftime (Monitor 10 shift True False 1) shop =
      Some (Inr (shop_after, [st_success ''Monitoring Lathe stopped. Total Production: 3 units.'']))"
    by (simp add: handle_def shop_session)
  have "reachable strftime ok ?w1"
    using reachable.start assms(1) 1 by (rule reachable.step)
  then have "reachable strftime ok shop"
    using assms(2) 2 by (rule reachable.step)
  then show ?thesis
    using assms(3) 3 by (rule reachable.step)
qed

lemma end_time_column:
  assumes "\<forall>p\<in>set prods. end_time p = None"
  shows "map_of (production_data strftime prods) ''End Time'' =
         Some (replicate (length prods) (StrCell ''Running''))"
proof -
  from assms have "map (end_time_cell strftime) prods = replicate (length prods) (StrCell ''Running'')"
    by (induction prods) (simp_all add: end_time_cell_def)
  then show ?thesis by (simp add: production_data_def)
qed

text \<open>
  C10. In every world the program reaches from a new database, every production row has
  no end time, so the production-data page, when it has rows to show, shows \<open>Running\<close>
  in the end-time column of every row, whether or not the row's session has stopped.
  This is because every operation leaves the rows already in the production table as
  they are, in place and order, and only appends rows that have no end time.
\<close>

theorem end_time_stays_null:
  assumes "reachable strftime (\<lambda>r. True) w"
  shows "(\<forall>p\<in>set (productions w). end_time p = None) \<and>
         (productions w \<noteq> [] \<longrightarrow>
            (\<exists>cols. production_data_page strftime w = [st_title ''Production Data'', st_dataframe cols] \<and>
                    map_of cols ''End Time'' =
                      Some (replicate (length (productions w)) (StrCell ''Running'')))) \<and>
         (\<forall>r w' out. handle strftime r w = Some (Inr (w', out)) \<longrightarrow>
            (\<exists>rows. productions w' = productions w @ rows \<and> (\<forall>p\<in>set rows. end_time p = None)))"
proof -
  from assms have null: "\<forall>p\<in>set (productions w). end_time p = None"
  proof (induction rule: reachable.induct)
    case start
    show ?case by (simp add: empty_db_def)
  next
    case (step w r w' out)
    from handle_productions [OF step.hyps(3)] step.IH show ?case by auto
  qed
  have page: "productions w \<noteq> [] \<longrightarrow>
            (\<exists>cols. production_data_page strftime w = [st_title ''Production Data'', st_dataframe cols] \<and>
                    map_of cols ''End Time'' =
                      Some (replicate (length (productions w)) (StrCell ''Running'')))"
    using end_time_column [OF null, of strftime] by (simp add: production_data_page_def)
  have "\<forall>r w' out. handle strftime r w = Some (Inr (w', out)) \<longrightarrow>
            (\<exists>rows. productions w' = productions w @ rows \<and> (\<forall>p\<in>set rows. end_time p = None))"
    using handle_productions by blast
  with null page show ?thesis by (intro conjI)
qed

theorem end_time_stays_null_witness:
  "reachable seconds_text (\<lambda>r. True) shop_after \<and>
   get_machine shop_after 1 = Some (lathe\<lparr>status := ''Idle''\<rparr>) \<and>
   map end_time (productions shop_after) = [None, None, None] \<and>
   productions shop_after \<noteq> [] \<and>
   (\<exists>cols. production_data_page seconds_text shop_after = [st_title ''Production Data'', st_dataframe cols] \<and>
           map_of cols ''End Time'' = Some [StrCell ''Running'', StrCell ''Running'', StrCell ''Running'']) \<and>
   handle seconds_text (Monitor 20 shift False True 1) shop_after =
     Some (Inr (shop_after\<lparr>running_machine := Some None\<rparr>, [])) \<and>
   (\<exists>rows. productions (shop_after\<lparr>running_machine := Some None\<rparr>) = productions shop_after @ rows \<and>
           (\<forall>p\<in>set rows. end_time p = None))"
proof -
  have r: "reachable seconds_text (\<lambda>r. True) shop_after"
    by (rule shop_after_reachable) simp_all
  have g: "get_machine shop_after 1 = Some (lathe\<lparr>status := ''Idle''\<rparr>)"
    and e: "map end_time (productions shop_after) = [None, None, None]"
    and n: "productions shop_after \<noteq> []" and l: "length (productions shop_after) = 3"
    by (simp_all add: get_machine_def query_get_def shop_after_def shop_defs)
  have h: "handle seconds_text (Monitor 20 shift False True 1) shop_after =
     Some (Inr (shop_after\<lparr>running_machine := Some None\<rparr>, []))"
    by (simp add: handle_def monitor_machine_def stop_monitoring_def get_machine_def query_get_def
        shop_after_def shop_defs set_status_def)
  note inst = end_time_stays_null [OF r]
  from inst [THEN conjunct2, THEN conjunct1] n l
  have c: "\<exists>cols. production_data_page seconds_text shop_after = [st_title ''Production Data'', st_dataframe cols] \<and>
           map_of cols ''End Time'' = Some [StrCell ''Running'', StrCell ''Running'', StrCell ''Running'']"
    by (simp add: numeral_3_eq_3)
  from inst [THEN conjunct2, THEN conjunct2, rule_format, OF h]
  have d: "\<exists>rows. productions (shop_after\<lparr>running_machine := Some None\<rparr>) = productions shop_after @ rows \<and>
           (\<forall>p\<in>set rows. end_time p = None)" .
  from r g e n c h d show ?thesis by (intro conjI)
qed

text \<open>
  C7. A machine stored by the add-machine form has one of the three statuses of the
  select box and a name that is not empty (the form rejects a blank name). In every world
  reached from a new database by well-formed requests, every stored machine has one of
  the three statuses and a non-empty name; and every well-formed request that returns
  preserves this for all stored machines: the forms, the two read-only pages, a
  monitoring session (which writes no status itself) and the Stop button (which writes
  \<open>Idle\<close>).
\<close>

theorem machine_status_invariant:
  "(strip machine_name \<noteq> [] \<and> machine_status \<in> set status_options \<longrightarrow>
      (\<exists>m. machines (fst (add_machine_page now machine_name machine_status True w)) = machines w @ [m] \<and>
           status m \<in> {''Running'', ''Idle'', ''Maintenance''} \<and> Machine.name m \<noteq> [])) \<and>
   (reachable strftime well_formed v \<longrightarrow>
      (\<forall>m\<in>set (machines v). status m \<in> {''Running'', ''Idle'', ''Maintenance''} \<and> Machine.name m \<noteq> [])) \<and>
   (well_formed r \<and> handle strftime r u = Some (Inr (u', out)) \<and>
    (\<forall>m\<in>set (machines u). status m \<in> {''Running'', ''Idle'', ''Maintenance''} \<and> Machine.name m \<noteq> []) \<longrightarrow>
      (\<forall>m\<in>set (machines u'). status m \<in> {''Running'', ''Idle'', ''Maintenance''} \<and> Machine.name m \<noteq> []))"
proof -
  have opts: "set status_options = {''Running'', ''Idle'', ''Maintenance''}"
    by (simp add: status_options_def)
  have a: "strip machine_name \<noteq> [] \<and> machine_status \<in> set status_options \<longrightarrow>
      (\<exists>m. machines (fst (add_machine_page now machine_name machine_status True w)) = machines w @ [m] \<and>
           status m \<in> {''Running'', ''Idle'', ''Maintenance''} \<and> Machine.name m \<noteq> [])"
    using strip_Nil by (auto simp: add_machine_page_def add_machine_def opts)
  have b: "\<forall>m\<in>set (machines v). status m \<in> set status_options \<and> Machine.name m \<noteq> []"
    if "reachable strftime well_formed v"
    using that
  proof (induction rule: reachable.induct)
    case start
    show ?case by (simp add: empty_db_def)
  next
    case (step w r w' out)
    from step.hyps(2,3) step.IH show ?case by (rule handle_machines)
  qed
  have c: "\<forall>m\<in>set (machines u'). status m \<in> set status_options \<and> Machine.name m \<noteq> []"
    if "well_formed r" "handle strftime r u = Some (Inr (u', out))"
      "\<forall>m\<in>set (machines u). status m \<in> set status_options \<and> Machine.name m \<noteq> []"
    using that by (rule handle_machines)
  from a b c show ?thesis
    unfolding opts by blast
qed

theorem machine_status_invariant_witness:
  "strip ''Saw'' \<noteq> [] \<and> ''Maintenance'' \<in> set status_options \<and>
   machines (fst (add_machine_page 42 ''Saw'' ''Maintenance'' True shop_after)) =
     machines shop_after @
       [\<lparr>Machine.id = 3, Machine.name = ''Saw'', status = ''Maintenance'', last_maintenance = Some 42\<rparr>] \<and>
   reachable seconds_text well_formed shop_after \<and>
   map status (machines shop_after) = [''Idle'', ''Idle''] \<and>
   map Machine.name (machines shop_after) = [''Lathe'', ''Press''] \<and>
   set (map status (machines shop_after)) \<subseteq> {''Running'', ''Idle'', ''Maintenance''} \<and>
   [] \<notin> set (map Machine.name (machines shop_after)) \<and>
   well_formed (Monitor 10 shift True False 1) \<and>
   handle seconds_text (Monitor 10 shift True False 1) shop =
     Some (Inr (shop_after, [st_success ''Monitoring Lathe stopped. Total Production: 3 units.'']))"
proof -
  have s: "strip ''Saw'' \<noteq> []"
    by (simp add: strip_def lstrip_def rstrip_def whitespace_def drop_tokens.simps)
  have o: "''Maintenance'' \<in> set status_options"
    by (simp add: status_options_def)
  have wf: "well_formed (Monitor 10 shift True False 1)"
    by (simp add: shift_def status_options_def)
  have r: "reachable seconds_text well_formed shop_after"
    by (rule shop_after_reachable) (simp_all add: status_options_def shift_def)
  have h: "handle seconds_text (Monitor 10 shift True False 1) shop =
     Some (Inr (shop_after, [st_success ''Monitoring Lathe stopped. Total Production: 3 units.'']))"
    by (simp add: handle_def shop_session)
  have m: "machines (fst (add_machine_page 42 ''Saw'' ''Maintenance'' True shop_after)) =
     machines shop_after @
       [\<lparr>Machine.id = 3, Machine.name = ''Saw'', status = ''Maintenance'', last_maintenance = Some 42\<rparr>]"
    using s by (simp add: add_machine_page_def add_machine_def next_id_def shop_after_def shop_defs)
  have cols: "map status (machines shop_after) = [''Idle'', ''Idle'']"
    "map Machine.name (machines shop_after) = [''Lathe'', ''Press'']"
    by (simp_all add: shop_after_def shop_defs)
  have pre: "\<forall>m\<in>set (machines shop).
      status m \<in> {''Running'', ''Idle'', ''Maintenance''} \<and> Machine.name m \<noteq> []"
    by (simp add: shop_defs)
  note inst = machine_status_invariant
    [where machine_name = "''Saw''" and machine_status = "''Maintenance''" and now = 42
       and w = shop_after and strftime = seconds_text and v = shop_after
       and r = "Monitor 10 shift True False 1" and u = shop and u' = shop_after
       and out = "[st_success ''Monitoring Lathe stopped. Total Production: 3 units.'']"]
  from inst [THEN conjunct1] s o
  have "\<exists>m. machines (fst (add_machine_page 42 ''Saw'' ''Maintenance'' True shop_after)) =
           machines shop_after @ [m] \<and>
           status m \<in> {''Running'', ''Idle'', ''Maintenance''} \<and> Machine.name m \<noteq> []"
    by blast
  from inst [THEN conjunct2, THEN conjunct1, rule_format, OF r]
  have i: "\<forall>m\<in>set (machines shop_after).
      status m \<in> {''Running'', ''Idle'', ''Maintenance''} \<and> Machine.name m \<noteq> []"
    by blast
  from inst [THEN conjunct2, THEN conjunct2] wf h pre
  have "\<forall>m\<in>set (machines shop_after).
      status m \<in> {''Running'', ''Idle'', ''Maintenance''} \<and> Machine.name m \<noteq> []"
    by blast
  from i have sub: "set (map status (machines shop_after)) \<subseteq> {''Running'', ''Idle'', ''Maintenance''}"
    and ne: "[] \<notin> set (map Machine.name (machines shop_after))"
    by auto
  from s o m r cols sub ne wf h show ?thesis by (intro conjI)
qed

end
